theory Spec2Isabelle
  imports Main "HOL-Library.AList"
begin

section \<open>Reflection: types, values and errors\<close>

text \<open>
  The injector works on \<^verbatim>\<open>reflect.Type\<close> and \<^verbatim>\<open>reflect.Value\<close>. A type is modelled by its
  kind and, for named types, its name; two types are the same type when the terms are equal.
  A struct tag is the list of its key/value pairs.
\<close>

datatype kind = Ptr | Slice | Func | Struct | Interface | OtherKind

datatype rtype =
    TPtr rtype
  | TSlice rtype
  | TFunc "rtype list" "rtype list"
  | TStruct string "sfield list"
  | TInterface string
  | TOther string
and sfield =
    SField (fieldName: string) (fieldType: rtype) (fieldAnonymous: bool)
           (fieldTag: "(string \<times> string) list") (fieldExported: bool)

fun Kind :: "rtype \<Rightarrow> kind" where
  "Kind (TPtr t) = Ptr"
| "Kind (TSlice t) = Slice"
| "Kind (TFunc ins outs) = Func"
| "Kind (TStruct n fs) = Struct"
| "Kind (TInterface n) = Interface"
| "Kind (TOther n) = OtherKind"

text \<open>errors.go: the four error types of the package, \<^verbatim>\<open>fmt.Errorf\<close> (format string,
  arguments, and the error wrapped by \<^verbatim>\<open>%w\<close> when there is one) and the errors that
  user functions return.\<close>

datatype fmtarg = ArgType rtype | ArgNat nat | ArgStr string

datatype err =
    invalidInputError string
  | injectionError rtype string err
  | contextScopedNotActiveError
  | injectorConfigurationError string "err option"
  | Errorf string "fmtarg list" "err option"
  | UserError string

definition newInjectionError :: "rtype \<Rightarrow> string \<Rightarrow> err \<Rightarrow> err" where
  "newInjectionError typ annotation cause = injectionError typ annotation cause"

definition newContextScopedNotActiveError :: err where
  "newContextScopedNotActiveError = contextScopedNotActiveError"

text \<open>The \<^verbatim>\<open>Unwrap\<close> methods.\<close>

fun Unwrap :: "err \<Rightarrow> err option" where
  "Unwrap (injectionError t a cause) = Some cause"
| "Unwrap (injectorConfigurationError m cause) = cause"
| "Unwrap (Errorf f args cause) = cause"
| "Unwrap e = None"

section \<open>Execution contexts\<close>

text \<open>
  A \<^verbatim>\<open>context.Context\<close> is nil (\<open>None\<close>) or a chain of \<^verbatim>\<open>context.WithValue\<close> nodes over a
  background context. Keys and values are of type \<^verbatim>\<open>any\<close>: nil, a pointer to an instance
  registry, or some other comparable value.
\<close>

datatype any = AnyNil | AnyRegistry nat | AnyOther nat

datatype Context = Background | WithValue Context any any

fun Value :: "Context \<Rightarrow> any \<Rightarrow> any" where
  "Value Background k = AnyNil"
| "Value (WithValue parent key v) k = (if key = k then v else Value parent k)"

datatype val =
    Invalid
  | VZero rtype
  | VObj rtype nat
  | VSlice rtype "val list"
  | VStruct rtype "val list"
  | VPtr val
  | VContext Context
  | VInjector nat
  | VError err
  | VProvider rtype string bool

text \<open>\<open>Invalid\<close> is the zero \<^verbatim>\<open>reflect.Value{}\<close>; \<open>VZero t\<close> is \<^verbatim>\<open>reflect.Zero(t)\<close>;
  \<open>VSlice\<close> is a non-nil slice; \<open>VProvider\<close> is the function made by
  \<^verbatim>\<open>createProviderValue\<close>, kept as the data its closure captures.\<close>

definition IsValid :: "val \<Rightarrow> bool" where
  "IsValid v = (v \<noteq> Invalid)"

fun IsZero :: "val \<Rightarrow> bool" where
  "IsZero (VZero t) = True"
| "IsZero (VStruct t vs) = list_all IsZero vs"
| "IsZero v = False"

section \<open>Outcomes and state\<close>

text \<open>
  The model follows one goroutine. A call returns, panics (the package never recovers, so a
  panic ends the run), or never returns: \<open>Hang\<close> is the goroutine blocked for ever on a
  lock that it holds itself, or a recursion that ran out of fuel.
\<close>

datatype 'a result = Ret 'a | Panic | Hang

text \<open>
  User functions (providers, destroy methods) act on a world \<open>'w\<close> that the injector never
  looks at; they return, and do not call the package themselves. Instance registries are
  reached through pointers, from the singleton scope and from contexts, hence live in a
  heap.
\<close>

record ('b, 'w) instanceRegistry =
  instanceLock :: "'b \<rightharpoonup> bool"
  instances :: "'b \<rightharpoonup> val"
  destroyMethods :: "('w \<Rightarrow> 'w) list"

text \<open>\<open>instanceLock reg b = Some True\<close>: the \<^verbatim>\<open>RWMutex\<close> of \<open>b\<close> is held for writing.
  The two plain mutexes \<^verbatim>\<open>mu\<close> and \<^verbatim>\<open>destroyMethodsLock\<close> are never held across a call
  into the registry in a single goroutine, and are left out.\<close>

record ('b, 'w) state =
  heap :: "nat \<rightharpoonup> ('b, 'w) instanceRegistry"
  nextAddr :: nat
  world :: 'w

type_synonym ('b, 'w) creator =
  "('b, 'w) state \<Rightarrow> ((val \<times> err option) \<times> ('b, 'w) state) result"

section \<open>The instance registry\<close>

definition resolveBinding ::
  "nat \<Rightarrow> 'b \<Rightarrow> ('b, 'w) creator \<Rightarrow> ('b, 'w) state \<Rightarrow> ((val \<times> err option) \<times> ('b, 'w) state) result"
where
  "resolveBinding r binding instanceCreator s =
    (case heap s r of
       None \<Rightarrow> Panic
     | Some reg \<Rightarrow>
        (case instanceLock reg binding of
           Some held \<Rightarrow>
             if held then Hang
             else (case instances reg binding of
                     None \<Rightarrow> Panic
                   | Some inst \<Rightarrow> Ret ((inst, None), s))
         | None \<Rightarrow>
            (case instanceCreator
                    (s\<lparr>heap := (heap s)(r \<mapsto> reg\<lparr>instanceLock := (instanceLock reg)(binding \<mapsto> True)\<rparr>)\<rparr>) of
               Ret ((inst, e), s') \<Rightarrow>
                 (case heap s' r of
                    None \<Rightarrow> Panic
                  | Some reg' \<Rightarrow>
                      Ret ((inst, e),
                           s'\<lparr>heap := (heap s')(r \<mapsto>
                                 reg'\<lparr>instances := (instances reg')(binding \<mapsto> inst),
                                      instanceLock := (instanceLock reg')(binding \<mapsto> False)\<rparr>)\<rparr>))
             | Panic \<Rightarrow> Panic
             | Hang \<Rightarrow> Hang)))"

definition registerDestructionCallback ::
  "nat \<Rightarrow> ('w \<Rightarrow> 'w) \<Rightarrow> ('b, 'w) state \<Rightarrow> ('b, 'w) state result"
where
  "registerDestructionCallback r destroyCallback s =
    (case heap s r of
       None \<Rightarrow> Panic
     | Some reg \<Rightarrow>
         Ret (s\<lparr>heap := (heap s)(r \<mapsto> reg\<lparr>destroyMethods := destroyMethods reg @ [destroyCallback]\<rparr>)\<rparr>))"

text \<open>The loop of \<^verbatim>\<open>shutdown\<close>: \<open>n\<close> is \<^verbatim>\<open>i + 1\<close>, so the loop runs while \<open>n > 0\<close> and
  calls \<^verbatim>\<open>destroyMethods[n - 1]\<close>.\<close>

fun shutdownLoop :: "('w \<Rightarrow> 'w) list \<Rightarrow> nat \<Rightarrow> 'w \<Rightarrow> 'w" where
  "shutdownLoop ds 0 w = w"
| "shutdownLoop ds (Suc i) w = shutdownLoop ds i ((ds ! i) w)"

definition shutdown :: "nat \<Rightarrow> ('b, 'w) state \<Rightarrow> ('b, 'w) state result" where
  "shutdown r s =
    (case heap s r of
       None \<Rightarrow> Panic
     | Some reg \<Rightarrow>
         Ret (s\<lparr>world := shutdownLoop (destroyMethods reg) (length (destroyMethods reg)) (world s),
                heap := (heap s)(r \<mapsto> reg\<lparr>destroyMethods := []\<rparr>)\<rparr>))"

definition emptyRegistry :: "('b, 'w) instanceRegistry" where
  "emptyRegistry = \<lparr>instanceLock = Map.empty, instances = Map.empty, destroyMethods = []\<rparr>"

definition newInstanceRegistry :: "('b, 'w) state \<Rightarrow> nat \<times> ('b, 'w) state" where
  "newInstanceRegistry s =
     (nextAddr s, s\<lparr>heap := (heap s)(nextAddr s \<mapsto> emptyRegistry), nextAddr := Suc (nextAddr s)\<rparr>)"

section \<open>Scopes\<close>

text \<open>The three implementations of the \<^verbatim>\<open>Scope\<close> interface in the package. A singleton
  scope holds the pointer to its registry, a contextual scope its key.\<close>

datatype Scope = PerLookUpScope | SingletonScope nat | ContextualScope any

definition PerLookUp :: string where "PerLookUp = ''inject.PerLookUp''"
definition Singleton :: string where "Singleton = ''inject.Singleton''"

fun ResolveBinding ::
  "Scope \<Rightarrow> Context option \<Rightarrow> 'b \<Rightarrow> ('b, 'w) creator \<Rightarrow> ('b, 'w) state
     \<Rightarrow> ((val \<times> err option) \<times> ('b, 'w) state) result"
where
  "ResolveBinding PerLookUpScope ctx binding instanceCreator s = instanceCreator s"
| "ResolveBinding (SingletonScope r) ctx binding instanceCreator s =
     resolveBinding r binding instanceCreator s"
| "ResolveBinding (ContextualScope key) ctx binding instanceCreator s =
     (case ctx of
        None \<Rightarrow> Ret ((Invalid, Some newContextScopedNotActiveError), s)
      | Some c \<Rightarrow>
         (case Value c key of
            AnyRegistry scopeHolder \<Rightarrow> resolveBinding scopeHolder binding instanceCreator s
          | _ \<Rightarrow> Ret ((Invalid, Some newContextScopedNotActiveError), s)))"

text \<open>\<^verbatim>\<open>RegisterDestructionCallback\<close> has no result in Go. The contextual one calls
  \<^verbatim>\<open>ctx.Value\<close> with no nil check, which panics on a nil context.\<close>

fun RegisterDestructionCallback ::
  "Scope \<Rightarrow> Context option \<Rightarrow> ('w \<Rightarrow> 'w) \<Rightarrow> ('b, 'w) state \<Rightarrow> ('b, 'w) state result"
where
  "RegisterDestructionCallback PerLookUpScope ctx destroyCallback s = Ret s"
| "RegisterDestructionCallback (SingletonScope r) ctx destroyCallback s =
     registerDestructionCallback r destroyCallback s"
| "RegisterDestructionCallback (ContextualScope key) ctx destroyCallback s =
     (case ctx of
        None \<Rightarrow> Panic
      | Some c \<Rightarrow>
         (case Value c key of
            AnyRegistry scopeHolder \<Rightarrow> registerDestructionCallback scopeHolder destroyCallback s
          | _ \<Rightarrow> Ret s))"

text \<open>A \<^verbatim>\<open>*singletonScope\<close> is represented by the pointer to its registry \<open>r\<close>; as a
  \<^verbatim>\<open>Scope\<close> it is \<open>SingletonScope r\<close>.\<close>

definition newSingletonScope :: "('b, 'w) state \<Rightarrow> nat \<times> ('b, 'w) state" where
  "newSingletonScope s = newInstanceRegistry s"

definition NewContextualScope :: "any \<Rightarrow> Scope" where
  "NewContextualScope key = ContextualScope key"

text \<open>\<^verbatim>\<open>context.WithValue\<close> panics on a nil parent and on a nil key; its arguments,
  the new registry among them, are evaluated first.\<close>

definition WithContextualScopeEnabled ::
  "Context option \<Rightarrow> any \<Rightarrow> ('b, 'w) state \<Rightarrow> (Context \<times> ('b, 'w) state) result"
where
  "WithContextualScopeEnabled ctx key s =
     (case newInstanceRegistry s of
        (r, s') \<Rightarrow>
          (case ctx of
             None \<Rightarrow> Panic
           | Some c \<Rightarrow> if key = AnyNil then Panic else Ret (WithValue c key (AnyRegistry r), s')))"

definition ShutdownContextualScope ::
  "Context option \<Rightarrow> any \<Rightarrow> ('b, 'w) state \<Rightarrow> ('b, 'w) state result"
where
  "ShutdownContextualScope ctx key s =
     (case ctx of
        None \<Rightarrow> Panic
      | Some c \<Rightarrow>
         (case Value c key of
            AnyRegistry holder \<Rightarrow> shutdown holder s
          | _ \<Rightarrow> Ret s))"


section \<open>Bindings and the injector\<close>

text \<open>A \<^verbatim>\<open>reflect.Value\<close> of kind \<^verbatim>\<open>Func\<close>: its parameter and result types, and what a call
  does to the arguments and the world.\<close>

record 'w gofunc =
  funcIn :: "rtype list"
  funcOut :: "rtype list"
  funcBody :: "val list \<Rightarrow> 'w \<Rightarrow> val list \<times> 'w"

text \<open>binding.go. Bindings are handled through pointers and compared by identity;
  \<open>addr\<close> is the address of the binding, so that two bindings made from the same
  provider and annotations are still two bindings.\<close>

record 'w binding =
  addr :: nat
  typeof :: rtype
  provider :: "'w gofunc"
  providedType :: rtype
  annotatedWith :: string
  scope :: string
  destroyMethod :: "(val \<Rightarrow> 'w \<Rightarrow> 'w) option"

type_synonym 'w st = "('w binding, 'w) state"

type_synonym 'w table = "(rtype \<times> (string \<times> 'w binding list) list) list"

text \<open>The binding table is a Go map of maps that \<^verbatim>\<open>eagerlyCreateSingletons\<close> ranges over:
  an association list, whose order stands for the order the range loop happens to take.
  \<open>self\<close> is the address of the injector, \<open>singletonScope\<close> the registry of its
  singleton scope.\<close>

record 'w Injector =
  self :: nat
  bindings :: "'w table"
  scopes :: "string \<rightharpoonup> Scope"
  singletonScope :: nat

type_synonym 'w resolver =
  "Context option \<Rightarrow> rtype \<Rightarrow> string \<Rightarrow> bool \<Rightarrow> 'w st \<Rightarrow> ((val \<times> err option) \<times> 'w st) result"

definition errorReflectType :: rtype where
  "errorReflectType = TInterface ''error''"

definition invocationContextReflectType :: rtype where
  "invocationContextReflectType = TInterface ''goinject.InvocationContext''"

definition paramType :: rtype where
  "paramType = TStruct ''goinject.Params'' []"

definition injectorType :: rtype where
  "injectorType = TPtr (TStruct ''goinject.Injector''
     [SField ''bindings'' (TOther ''map[reflect.Type]map[string][]*goinject.binding'') False [] False,
      SField ''scopes'' (TOther ''map[string]goinject.Scope'') False [] False,
      SField ''singletonScope'' (TPtr (TStruct ''goinject.singletonScope''
         [SField ''instanceRegistry'' (TPtr (TOther ''goinject.instanceRegistry'')) False [] False]))
         False [] False])"

fun embedsType :: "rtype \<Rightarrow> rtype \<Rightarrow> bool" where
  "embedsType (TPtr t) e = embedsType t e"
| "embedsType (TStruct n fs) e = list_ex (\<lambda>f. fieldAnonymous f \<and> fieldType f = e) fs"
| "embedsType t e = False"

definition EmbedsParams :: "rtype \<Rightarrow> bool" where
  "EmbedsParams t = embedsType t paramType"

definition findBindingsForAnnotatedType :: "'w Injector \<Rightarrow> rtype \<Rightarrow> string \<Rightarrow> 'w binding list" where
  "findBindingsForAnnotatedType injector t annotation =
     (case map_of (bindings injector) t of
        None \<Rightarrow> []
      | Some byAnnotation \<Rightarrow>
          (case map_of byAnnotation annotation of
             None \<Rightarrow> []
           | Some bs \<Rightarrow> if length bs > 0 then bs else []))"

definition getScopeFromBinding :: "'w Injector \<Rightarrow> 'w binding \<Rightarrow> err + Scope" where
  "getScopeFromBinding injector binding =
     (case scopes injector (scope binding) of
        Some sc \<Rightarrow> Inr sc
      | None \<Rightarrow> Inl (newInjectionError (typeof binding) (annotatedWith binding)
                   (Errorf ''unknown scope %q for binding'' [ArgStr (scope binding)] None)))"

definition isProviderType :: "rtype \<Rightarrow> bool" where
  "isProviderType t =
     (case t of
        TFunc ins outs \<Rightarrow>
          length ins = 1 \<and> ins ! 0 = invocationContextReflectType \<and>
          length outs = 2 \<and> outs ! 1 = errorReflectType
      | _ \<Rightarrow> False)"

definition createProviderValue :: "rtype \<Rightarrow> string \<Rightarrow> bool \<Rightarrow> val" where
  "createProviderValue t annotation optional = VProvider t annotation optional"

text \<open>\<^verbatim>\<open>reflect.Value.Call\<close> panics on a zero Value among the arguments. Whether a value
  is assignable to the parameter it is passed for is not modelled.\<close>

definition Call :: "'w gofunc \<Rightarrow> val list \<Rightarrow> 'w st \<Rightarrow> (val list \<times> 'w st) result" where
  "Call f ins s =
     (if Invalid \<in> set ins then Panic
      else (case funcBody f ins (world s) of (res, w') \<Rightarrow> Ret (res, s\<lparr>world := w'\<rparr>)))"

text \<open>\<^verbatim>\<open>strings.Split\<close> on a one-byte separator and \<^verbatim>\<open>strings.TrimSpace\<close> (ASCII white space).\<close>

fun Split :: "string \<Rightarrow> char \<Rightarrow> string list" where
  "Split [] sep = [[]]"
| "Split (c # cs) sep =
     (if c = sep then [] # Split cs sep
      else (case Split cs sep of [] \<Rightarrow> [[c]] | w # ws \<Rightarrow> (c # w) # ws))"

definition isSpace :: "char \<Rightarrow> bool" where
  "isSpace c = (c \<in> set [CHR '' '', CHR 0x09, CHR 0x0A, CHR 0x0B, CHR 0x0C, CHR 0x0D])"

definition TrimSpace :: "string \<Rightarrow> string" where
  "TrimSpace str = rev (dropWhile isSpace (rev (dropWhile isSpace str)))"

text \<open>
  The functions of the resolution engine call each other in a cycle that always passes
  through \<^verbatim>\<open>getInstanceOfAnnotatedType\<close>. Each one takes that function as its parameter
  \<open>resolve\<close>; the cycle is closed below, by recursion on fuel.
\<close>

text \<open>The loop of \<^verbatim>\<open>setParamFields\<close> over the fields from index \<open>i\<close> on; \<open>vs\<close> are the
  field values of the struct being filled.\<close>

fun setParamFieldsLoop ::
  "'w resolver \<Rightarrow> Context option \<Rightarrow> sfield list \<Rightarrow> nat \<Rightarrow> val list
     \<Rightarrow> 'w st \<Rightarrow> ((val list \<times> err option) \<times> 'w st) result"
where
  "setParamFieldsLoop resolve ctx [] i vs s = Ret ((vs, None), s)"
| "setParamFieldsLoop resolve ctx (f # fs) i vs s =
     (if fieldType f = paramType then setParamFieldsLoop resolve ctx fs (Suc i) vs s
      else
        (case map_of (fieldTag f) ''inject'' of
           None \<Rightarrow> setParamFieldsLoop resolve ctx fs (Suc i) vs s
         | Some tag \<Rightarrow>
             if \<not> fieldExported f then
               Ret ((vs, Some (newInjectionError (fieldType f) tag
                                 (Errorf ''use inject tag on unsettable field'' [] None))), s)
             else
               (let optional = list_ex (\<lambda>option. TrimSpace option = ''optional'') (Split tag CHR '','')
                in case Split tag CHR '','' of
                     [] \<Rightarrow> Panic
                   | tag' # rest \<Rightarrow>
                       (case resolve ctx (fieldType f) tag' optional s of
                          Ret ((inst, e), s') \<Rightarrow>
                            (case e of
                               Some er \<Rightarrow> Ret ((vs, Some (newInjectionError (fieldType f) tag' er)), s')
                             | None \<Rightarrow>
                                 if IsValid inst then
                                   setParamFieldsLoop resolve ctx fs (Suc i) (vs[i := inst]) s'
                                 else if optional then
                                   setParamFieldsLoop resolve ctx fs (Suc i) vs s'
                                 else
                                   Ret ((vs, Some (newInjectionError (fieldType f) tag'
                                           (Errorf ''cannot get valid instance from scope'' [] None))), s'))
                        | Panic \<Rightarrow> Panic
                        | Hang \<Rightarrow> Hang))))"

text \<open>\<^verbatim>\<open>setParamFields\<close> mutates the struct it is given and returns an error; here it
  returns the struct too. \<^verbatim>\<open>NumField\<close> panics on a type that is not a struct.\<close>

definition setParamFields ::
  "'w resolver \<Rightarrow> Context option \<Rightarrow> val \<Rightarrow> 'w st \<Rightarrow> ((val \<times> err option) \<times> 'w st) result"
where
  "setParamFields resolve ctx paramValue s =
     (case paramValue of
        VStruct (TStruct n fs) vs \<Rightarrow>
          (case setParamFieldsLoop resolve ctx fs 0 vs s of
             Ret ((vs', e), s') \<Rightarrow> Ret ((VStruct (TStruct n fs) vs', e), s')
           | Panic \<Rightarrow> Panic
           | Hang \<Rightarrow> Hang)
      | _ \<Rightarrow> Panic)"

text \<open>The value \<^verbatim>\<open>reflect.New(t)\<close> points to.\<close>

definition newValue :: "rtype \<Rightarrow> val" where
  "newValue t =
     (case t of
        TStruct n fs \<Rightarrow> VStruct t (map (\<lambda>f. VZero (fieldType f)) fs)
      | _ \<Rightarrow> VZero t)"

definition createEmbeddedParams ::
  "'w resolver \<Rightarrow> Context option \<Rightarrow> rtype \<Rightarrow> 'w st \<Rightarrow> ((val \<times> err option) \<times> 'w st) result"
where
  "createEmbeddedParams resolve ctx embeddedType s =
     (case embeddedType of
        TPtr el \<Rightarrow>
          (case setParamFields resolve ctx (newValue el) s of
             Ret ((n, e), s') \<Rightarrow> Ret ((VPtr n, e), s')
           | Panic \<Rightarrow> Panic
           | Hang \<Rightarrow> Hang)
      | _ \<Rightarrow> setParamFields resolve ctx (newValue embeddedType) s)"

definition getFunctionArgumentInstance ::
  "'w resolver \<Rightarrow> Context option \<Rightarrow> rtype \<Rightarrow> 'w st \<Rightarrow> ((val \<times> err option) \<times> 'w st) result"
where
  "getFunctionArgumentInstance resolve ctx argType s =
     (if EmbedsParams argType then createEmbeddedParams resolve ctx argType s
      else resolve ctx argType [] False s)"

text \<open>The loop of \<^verbatim>\<open>callFunctionWithArgumentInstance\<close>, from parameter \<open>i\<close> on, \<open>ins\<close>
  being the arguments resolved so far.\<close>

fun argumentLoop ::
  "'w resolver \<Rightarrow> Context option \<Rightarrow> rtype list \<Rightarrow> nat \<Rightarrow> val list
     \<Rightarrow> 'w st \<Rightarrow> ((val list \<times> err option) \<times> 'w st) result"
where
  "argumentLoop resolve ctx [] i ins s = Ret ((ins, None), s)"
| "argumentLoop resolve ctx (t # ts) i ins s =
     (case getFunctionArgumentInstance resolve ctx t s of
        Ret ((v, e), s') \<Rightarrow>
          (case e of
             Some er \<Rightarrow>
               Ret (([], Some (Errorf ''failed to resolve function argument #%d: %w'' [ArgNat i] (Some er))), s')
           | None \<Rightarrow> argumentLoop resolve ctx ts (Suc i) (ins @ [v]) s')
      | Panic \<Rightarrow> Panic
      | Hang \<Rightarrow> Hang)"

definition callFunctionWithArgumentInstance ::
  "'w resolver \<Rightarrow> Context option \<Rightarrow> 'w gofunc \<Rightarrow> 'w st \<Rightarrow> ((val list \<times> err option) \<times> 'w st) result"
where
  "callFunctionWithArgumentInstance resolve ctx fValue s =
     (case argumentLoop resolve ctx (funcIn fValue) 0 [] s of
        Ret ((ins, e), s') \<Rightarrow>
          (case e of
             Some er \<Rightarrow> Ret (([], Some er), s')
           | None \<Rightarrow>
               (case Call fValue ins s' of
                  Ret (res, s'') \<Rightarrow> Ret ((res, None), s'')
                | Panic \<Rightarrow> Panic
                | Hang \<Rightarrow> Hang))
      | Panic \<Rightarrow> Panic
      | Hang \<Rightarrow> Hang)"

text \<open>\<^verbatim>\<open>binding.create\<close>. Indexing the results out of range and \<^verbatim>\<open>Interface()\<close> on a
  zero Value panic.\<close>

definition create ::
  "'w resolver \<Rightarrow> Context option \<Rightarrow> 'w binding \<Rightarrow> 'w st \<Rightarrow> ((val \<times> err option) \<times> 'w st) result"
where
  "create resolve ctx b s =
     (case callFunctionWithArgumentInstance resolve ctx (provider b) s of
        Ret ((res, e), s') \<Rightarrow>
          (case e of
             Some er \<Rightarrow>
               Ret ((Invalid, Some (Errorf ''failed to call provider function for type %q: %w''
                                      [ArgType (providedType b)] (Some er))), s')
           | None \<Rightarrow>
               if length (funcOut (provider b)) = 2 \<and> (length res < 2 \<or> res ! 1 = Invalid) then Panic
               else if res = [] then Panic
               else
                 (case (if length (funcOut (provider b)) = 2
                        then (case res ! 1 of VError er \<Rightarrow> Some er | _ \<Rightarrow> None) else None) of
                    Some er \<Rightarrow>
                      Ret ((res ! 0, Some (Errorf ''provider for type %q returned error: %w''
                                             [ArgType (providedType b)] (Some er))), s')
                  | None \<Rightarrow> Ret ((res ! 0, None), s')))
      | Panic \<Rightarrow> Panic
      | Hang \<Rightarrow> Hang)"

text \<open>The closure \<^verbatim>\<open>getScopedInstanceFromBinding\<close> hands to the scope. \<^verbatim>\<open>IsZero\<close> panics
  on a zero Value.\<close>

definition instanceCreator ::
  "'w resolver \<Rightarrow> Scope \<Rightarrow> Context option \<Rightarrow> 'w binding \<Rightarrow> ('w binding, 'w) creator"
where
  "instanceCreator resolve sc ctx binding s =
     (case create resolve ctx binding s of
        Ret ((v, creationError), s') \<Rightarrow>
          (case destroyMethod binding of
             Some dm \<Rightarrow>
               if creationError = None then
                 (if v = Invalid then Panic
                  else if \<not> IsZero v then
                    (case RegisterDestructionCallback sc ctx (\<lambda>w. dm v w) s' of
                       Ret s'' \<Rightarrow> Ret ((v, creationError), s'')
                     | Panic \<Rightarrow> Panic
                     | Hang \<Rightarrow> Hang)
                  else Ret ((v, creationError), s'))
               else Ret ((v, creationError), s')
           | None \<Rightarrow> Ret ((v, creationError), s'))
      | Panic \<Rightarrow> Panic
      | Hang \<Rightarrow> Hang)"

definition getScopedInstanceFromBinding ::
  "'w resolver \<Rightarrow> 'w Injector \<Rightarrow> Context option \<Rightarrow> 'w binding
     \<Rightarrow> 'w st \<Rightarrow> ((val \<times> err option) \<times> 'w st) result"
where
  "getScopedInstanceFromBinding resolve injector ctx binding s =
     (case getScopeFromBinding injector binding of
        Inl e \<Rightarrow> Ret ((Invalid, Some e), s)
      | Inr sc \<Rightarrow> ResolveBinding sc ctx binding (instanceCreator resolve sc ctx binding) s)"

text \<open>The loop of the slice branch: \<open>n\<close> are the elements appended so far.
  \<^verbatim>\<open>reflect.Append\<close> panics on a zero Value.\<close>

fun sliceLoop ::
  "'w resolver \<Rightarrow> 'w Injector \<Rightarrow> Context option \<Rightarrow> rtype \<Rightarrow> 'w binding list \<Rightarrow> val list
     \<Rightarrow> 'w st \<Rightarrow> ((val \<times> err option) \<times> 'w st) result"
where
  "sliceLoop resolve injector ctx t [] n s = Ret ((VSlice t n, None), s)"
| "sliceLoop resolve injector ctx t (binding # rest) n s =
     (case getScopedInstanceFromBinding resolve injector ctx binding s of
        Ret ((r, e), s') \<Rightarrow>
          (case e of
             Some er \<Rightarrow> Ret ((Invalid, Some er), s')
           | None \<Rightarrow>
               if r = Invalid then Panic
               else sliceLoop resolve injector ctx t rest (n @ [r]) s')
      | Panic \<Rightarrow> Panic
      | Hang \<Rightarrow> Hang)"

text \<open>\<^verbatim>\<open>reflect.ValueOf\<close> of a nil interface is the zero Value.\<close>

definition ValueOfContext :: "Context option \<Rightarrow> val" where
  "ValueOfContext ctx = (case ctx of None \<Rightarrow> Invalid | Some c \<Rightarrow> VContext c)"

definition getInstanceOfAnnotatedTypeBody ::
  "'w resolver \<Rightarrow> 'w Injector \<Rightarrow> 'w resolver"
where
  "getInstanceOfAnnotatedTypeBody resolve injector ctx t annotation optional s =
     (case t of
        TSlice el \<Rightarrow>
          (let bs = findBindingsForAnnotatedType injector el annotation in
           if length bs > 0 then sliceLoop resolve injector ctx t bs [] s
           else if optional then Ret ((VSlice t [], None), s)
           else Ret ((VSlice t [],
                      Some (newInjectionError el annotation
                              (Errorf ''did not found binding, expected at least one'' [] None))), s))
      | _ \<Rightarrow>
          (let bs = findBindingsForAnnotatedType injector t annotation in
           if length bs > 1 then
             Ret ((Invalid, Some (newInjectionError t annotation
                                    (Errorf ''found multiple bindings expected one'' [] None))), s)
           else if length bs = 1 then getScopedInstanceFromBinding resolve injector ctx (bs ! 0) s
           else if isProviderType t then Ret ((createProviderValue t annotation optional, None), s)
           else if t = invocationContextReflectType then Ret ((ValueOfContext ctx, None), s)
           else if optional then Ret ((Invalid, None), s)
           else Ret ((Invalid, Some (newInjectionError t annotation
                                       (Errorf ''did not found binding, expected one'' [] None))), s)))"

text \<open>Closing the cycle: \<open>fuel\<close> bounds the depth to which \<^verbatim>\<open>getInstanceOfAnnotatedType\<close>
  calls nest, that is the depth of the dependency graph. With a cyclic dependency no fuel is
  enough.\<close>

fun getInstanceOfAnnotatedType :: "nat \<Rightarrow> 'w Injector \<Rightarrow> 'w resolver" where
  "getInstanceOfAnnotatedType 0 injector = (\<lambda>ctx t annotation optional s. Hang)"
| "getInstanceOfAnnotatedType (Suc fuel) injector =
     getInstanceOfAnnotatedTypeBody (getInstanceOfAnnotatedType fuel injector) injector"

text \<open>\<^verbatim>\<open>eagerlyCreateSingletons\<close>: three nested range loops, over the binding list of an
  annotation, over the annotations of a type, over the types; an error leaves all three.\<close>

fun eagerBindingList ::
  "'w resolver \<Rightarrow> 'w Injector \<Rightarrow> 'w binding list \<Rightarrow> 'w st \<Rightarrow> (err option \<times> 'w st) result"
where
  "eagerBindingList resolve injector [] s = Ret (None, s)"
| "eagerBindingList resolve injector (b # bindingList) s =
     (if scope b = Singleton then
        (case getScopedInstanceFromBinding resolve injector None b s of
           Ret ((v, e), s') \<Rightarrow>
             (case e of
                Some er \<Rightarrow> Ret (Some (Errorf ''failed to get singleton instance: %w'' [] (Some er)), s')
              | None \<Rightarrow> eagerBindingList resolve injector bindingList s')
         | Panic \<Rightarrow> Panic
         | Hang \<Rightarrow> Hang)
      else eagerBindingList resolve injector bindingList s)"

fun eagerByAnnotation ::
  "'w resolver \<Rightarrow> 'w Injector \<Rightarrow> (string \<times> 'w binding list) list \<Rightarrow> 'w st
     \<Rightarrow> (err option \<times> 'w st) result"
where
  "eagerByAnnotation resolve injector [] s = Ret (None, s)"
| "eagerByAnnotation resolve injector ((annotation, bindingList) # rest) s =
     (case eagerBindingList resolve injector bindingList s of
        Ret (e, s') \<Rightarrow>
          (case e of
             Some er \<Rightarrow> Ret (Some er, s')
           | None \<Rightarrow> eagerByAnnotation resolve injector rest s')
      | Panic \<Rightarrow> Panic
      | Hang \<Rightarrow> Hang)"

fun eagerByType ::
  "'w resolver \<Rightarrow> 'w Injector \<Rightarrow> 'w table \<Rightarrow> 'w st \<Rightarrow> (err option \<times> 'w st) result"
where
  "eagerByType resolve injector [] s = Ret (None, s)"
| "eagerByType resolve injector ((t, bindingsByAnnotation) # rest) s =
     (case eagerByAnnotation resolve injector bindingsByAnnotation s of
        Ret (e, s') \<Rightarrow>
          (case e of
             Some er \<Rightarrow> Ret (Some er, s')
           | None \<Rightarrow> eagerByType resolve injector rest s')
      | Panic \<Rightarrow> Panic
      | Hang \<Rightarrow> Hang)"

definition eagerlyCreateSingletons ::
  "nat \<Rightarrow> 'w Injector \<Rightarrow> 'w st \<Rightarrow> (err option \<times> 'w st) result"
where
  "eagerlyCreateSingletons fuel injector s =
     eagerByType (getInstanceOfAnnotatedType fuel injector) injector (bindings injector) s"

section \<open>Building and shutting down the injector\<close>

text \<open>
  The configuration that the options fill. \<^verbatim>\<open>bindings\<close> is a Go map used as a set of
  binding pointers; \<open>modBindings\<close> lists its keys in the order the range loop of
  \<^verbatim>\<open>NewInjector\<close> takes them. \<^verbatim>\<open>Option\<close> is an interface with the one method \<^verbatim>\<open>apply\<close>:
  an option is taken as what its \<^verbatim>\<open>apply\<close> does to the configuration.
\<close>

record 'w configuration =
  modBindings :: "'w binding list"
  modScopes :: "string \<rightharpoonup> Scope"

type_synonym 'w Option = "'w configuration \<Rightarrow> err + 'w configuration"

fun applyOptions :: "'w Option list \<Rightarrow> 'w configuration \<Rightarrow> err + 'w configuration" where
  "applyOptions [] cfg = Inr cfg"
| "applyOptions (opt # opts) cfg =
     (case opt cfg of
        Inl e \<Rightarrow> Inl e
      | Inr cfg' \<Rightarrow> applyOptions opts cfg')"

text \<open>One round of the loop that fills the table:
  \<^verbatim>\<open>injector.bindings[b.typeof][b.annotatedWith] = append(..., b)\<close>.\<close>

definition addBinding :: "'w table \<Rightarrow> 'w binding \<Rightarrow> 'w table" where
  "addBinding tab b =
     (let byAnnotation = (case map_of tab (typeof b) of None \<Rightarrow> [] | Some m \<Rightarrow> m);
          bindingList = (case map_of byAnnotation (annotatedWith b) of None \<Rightarrow> [] | Some l \<Rightarrow> l)
      in AList.update (typeof b)
           (AList.update (annotatedWith b) (bindingList @ [b]) byAnnotation) tab)"

definition injectorBinding :: "nat \<Rightarrow> nat \<Rightarrow> 'w binding" where
  "injectorBinding a injectorAddr =
     \<lparr>addr = a, typeof = injectorType,
      provider = \<lparr>funcIn = [], funcOut = [injectorType],
                  funcBody = (\<lambda>args w. ([VInjector injectorAddr], w))\<rparr>,
      providedType = injectorType, annotatedWith = [], scope = Singleton,
      destroyMethod = None\<rparr>"

text \<open>The injector that \<^verbatim>\<open>NewInjector\<close> assembles before it creates the singletons:
  \<open>r\<close> is the registry of the new singleton scope, \<open>a\<close> the address of the injector,
  \<open>a'\<close> that of the binding of the injector itself.\<close>

definition assemble :: "'w configuration \<Rightarrow> nat \<Rightarrow> nat \<Rightarrow> nat \<Rightarrow> 'w Injector" where
  "assemble cfg r a a' =
     \<lparr>self = a,
      bindings = AList.update injectorType [([], [injectorBinding a' a])]
                   (foldl addBinding [] (modBindings cfg)),
      scopes = (modScopes cfg)(Singleton \<mapsto> SingletonScope r, PerLookUp \<mapsto> PerLookUpScope),
      singletonScope = r\<rparr>"

definition NewInjector ::
  "nat \<Rightarrow> 'w Option list \<Rightarrow> 'w st \<Rightarrow> (('w Injector option \<times> err option) \<times> 'w st) result"
where
  "NewInjector fuel options s =
     (case applyOptions options \<lparr>modBindings = [], modScopes = Map.empty\<rparr> of
        Inl e \<Rightarrow> Ret ((None, Some e), s)
      | Inr cfg \<Rightarrow>
          (case newSingletonScope s of
             (r, s1) \<Rightarrow>
               (let injector = assemble cfg r (nextAddr s1) (Suc (nextAddr s1));
                    s2 = s1\<lparr>nextAddr := Suc (Suc (nextAddr s1))\<rparr>
                in case eagerlyCreateSingletons fuel injector s2 of
                     Ret (e, s') \<Rightarrow>
                       (case e of
                          Some er \<Rightarrow> Ret ((None, Some er), s')
                        | None \<Rightarrow> Ret ((Some injector, None), s'))
                   | Panic \<Rightarrow> Panic
                   | Hang \<Rightarrow> Hang)))"

text \<open>\<^verbatim>\<open>Injector.Shutdown\<close> mutates the injector; here it returns it.\<close>

definition Shutdown :: "'w Injector \<Rightarrow> 'w st \<Rightarrow> ('w Injector \<times> 'w st) result" where
  "Shutdown injector s =
     (case shutdown (singletonScope injector) s of
        Ret s' \<Rightarrow> Ret (injector\<lparr>bindings := [], scopes := Map.empty\<rparr>, s')
      | Panic \<Rightarrow> Panic
      | Hang \<Rightarrow> Hang)"

section \<open>Notions used to state the properties\<close>

text \<open>\<open>memoized r b v s\<close>: in state \<open>s\<close>, registry \<open>r\<close> holds the finished construction
  of binding \<open>b\<close>, with value \<open>v\<close>.\<close>

definition memoized :: "nat \<Rightarrow> 'b \<Rightarrow> val \<Rightarrow> ('b, 'w) state \<Rightarrow> bool" where
  "memoized r b v s =
     (case heap s r of
        None \<Rightarrow> False
      | Some reg \<Rightarrow> instanceLock reg b = Some False \<and> instances reg b = Some v)"

definition memoLe :: "('b, 'w) state \<Rightarrow> ('b, 'w) state \<Rightarrow> bool" where
  "memoLe s s' = (\<forall>r b v. memoized r b v s \<longrightarrow> memoized r b v s')"

text \<open>A creator that, like the one of the injector, reaches the registries only through
  their methods leaves finished constructions as they are.\<close>

definition keepsMemo :: "(('b, 'w) state \<Rightarrow> ('a \<times> ('b, 'w) state) result) \<Rightarrow> bool" where
  "keepsMemo f = (\<forall>s x s'. f s = Ret (x, s') \<longrightarrow> memoLe s s')"

text \<open>\<open>later s s'\<close>: \<open>s'\<close> is reached from \<open>s\<close> by calls of the methods of instance
  registries (any registry, any binding) that return.\<close>

inductive later :: "('b, 'w) state \<Rightarrow> ('b, 'w) state \<Rightarrow> bool" where
  later_refl: "later s s"
| later_resolve:
    "later s s' \<Longrightarrow> keepsMemo c \<Longrightarrow> resolveBinding r b c s' = Ret (x, s'') \<Longrightarrow> later s s''"
| later_register:
    "later s s' \<Longrightarrow> registerDestructionCallback r cb s' = Ret s'' \<Longrightarrow> later s s''"
| later_shutdown:
    "later s s' \<Longrightarrow> shutdown r s' = Ret s'' \<Longrightarrow> later s s''"

text \<open>\<open>memoExt P s s'\<close>: the finished constructions of \<open>s\<close> are those of \<open>s'\<close>, and
  every new one satisfies \<open>P\<close>.\<close>

definition memoExt :: "('b \<Rightarrow> val \<Rightarrow> bool) \<Rightarrow> ('b, 'w) state \<Rightarrow> ('b, 'w) state \<Rightarrow> bool" where
  "memoExt P s s' =
     (\<forall>r b v. (memoized r b v s \<longrightarrow> memoized r b v s') \<and>
              (memoized r b v s' \<longrightarrow> memoized r b v s \<or> P b v))"

definition keeps ::
  "('b \<Rightarrow> val \<Rightarrow> bool) \<Rightarrow> (('b, 'w) state \<Rightarrow> ('a \<times> ('b, 'w) state) result) \<Rightarrow> bool"
where
  "keeps P f = (\<forall>s x s'. f s = Ret (x, s') \<longrightarrow> memoExt P s s')"

definition resolverKeeps :: "('w binding \<Rightarrow> val \<Rightarrow> bool) \<Rightarrow> 'w resolver \<Rightarrow> bool" where
  "resolverKeeps P resolve = (\<forall>ctx t annotation optional. keeps P (resolve ctx t annotation optional))"

text \<open>\<open>P\<close> holds of every value that a creator of the injector returns for a binding.\<close>

definition creatorSound :: "('w binding \<Rightarrow> val \<Rightarrow> bool) \<Rightarrow> bool" where
  "creatorSound P =
     (\<forall>(resolve :: 'w resolver) sc ctx b s v e s'.
        instanceCreator resolve sc ctx b s = Ret ((v, e), s') \<longrightarrow> P b v)"

text \<open>Registering a list of callbacks, one call after the other.\<close>

fun registerAll :: "nat \<Rightarrow> ('w \<Rightarrow> 'w) list \<Rightarrow> ('b, 'w) state \<Rightarrow> ('b, 'w) state result" where
  "registerAll r [] s = Ret s"
| "registerAll r (c # cs) s =
     (case registerDestructionCallback r c s of
        Ret s' \<Rightarrow> registerAll r cs s'
      | Panic \<Rightarrow> Panic
      | Hang \<Rightarrow> Hang)"

text \<open>A context that carries no instance registry under a key: nil, or one whose value
  under the key is not a registry.\<close>

definition carriesNoRegistry :: "Context option \<Rightarrow> any \<Rightarrow> bool" where
  "carriesNoRegistry ctx key =
     (case ctx of
        None \<Rightarrow> True
      | Some c \<Rightarrow> (case Value c key of AnyRegistry r \<Rightarrow> False | _ \<Rightarrow> True))"

text \<open>Enter a contextual scope, resolve a binding, exit the scope, resolve the binding
  again with the same context: the results of the two resolutions.\<close>

definition enterResolveExitResolve ::
  "Context option \<Rightarrow> any \<Rightarrow> 'b \<Rightarrow> ('b, 'w) creator \<Rightarrow> ('b, 'w) creator \<Rightarrow> ('b, 'w) state
     \<Rightarrow> ((val \<times> err option) \<times> (val \<times> err option)) result"
where
  "enterResolveExitResolve ctx key b c1 c2 s =
     (case WithContextualScopeEnabled ctx key s of
        Ret (ctx', s1) \<Rightarrow>
          (case ResolveBinding (ContextualScope key) (Some ctx') b c1 s1 of
             Ret (x, s2) \<Rightarrow>
               (case ShutdownContextualScope (Some ctx') key s2 of
                  Ret s3 \<Rightarrow>
                    (case ResolveBinding (ContextualScope key) (Some ctx') b c2 s3 of
                       Ret (y, s4) \<Rightarrow> Ret (x, y)
                     | Panic \<Rightarrow> Panic
                     | Hang \<Rightarrow> Hang)
                | Panic \<Rightarrow> Panic
                | Hang \<Rightarrow> Hang)
           | Panic \<Rightarrow> Panic
           | Hang \<Rightarrow> Hang)
      | Panic \<Rightarrow> Panic
      | Hang \<Rightarrow> Hang)"

subsection \<open>Concrete inputs\<close>

text \<open>A state with one empty registry, at address 0, whose world is the log of the user
  functions called; bindings are numbers here. \<open>demoCreator n\<close> logs \<open>n\<close> and returns the
  \<open>n\<close>-th object of a type \<open>T\<close>; \<open>demoFailing\<close> logs 0 and fails; \<open>demoCallback n\<close> logs
  \<open>n\<close>.\<close>

definition demoState :: "(nat, nat list) state" where
  "demoState = \<lparr>heap = [0 \<mapsto> emptyRegistry], nextAddr = 1, world = []\<rparr>"

definition demoCreator :: "nat \<Rightarrow> (nat, nat list) creator" where
  "demoCreator n s = Ret ((VObj (TOther ''T'') n, None), s\<lparr>world := world s @ [n]\<rparr>)"

definition demoFailing :: "(nat, nat list) creator" where
  "demoFailing s = Ret ((Invalid, Some (UserError ''boom'')), s\<lparr>world := world s @ [0]\<rparr>)"

definition demoCallback :: "nat \<Rightarrow> nat list \<Rightarrow> nat list" where
  "demoCallback n w = w @ [n]"

text \<open>The state after binding 1 has been resolved with \<open>demoCreator 7\<close> in \<open>demoState\<close>.\<close>

definition demoResolved :: "(nat, nat list) state" where
  "demoResolved =
     \<lparr>heap = [0 \<mapsto> \<lparr>instanceLock = [1 \<mapsto> False],
                      instances = [1 \<mapsto> VObj (TOther ''T'') 7],
                      destroyMethods = []\<rparr>],
      nextAddr = 1, world = [7]\<rparr>"

subsection \<open>Resolving a list of bindings in order\<close>

text \<open>\<open>resolvesInOrder resolve injector ctx bs s rs s'\<close>: resolved one after the other
  from state \<open>s\<close>, the bindings \<open>bs\<close> each return a valid instance and no error; \<open>rs\<close> are
  these instances, in the order of \<open>bs\<close>, and \<open>s'\<close> is the state reached.\<close>

fun resolvesInOrder ::
  "'w resolver \<Rightarrow> 'w Injector \<Rightarrow> Context option \<Rightarrow> 'w binding list \<Rightarrow> 'w st \<Rightarrow> val list
     \<Rightarrow> 'w st \<Rightarrow> bool"
where
  "resolvesInOrder resolve injector ctx [] s rs s' = (rs = [] \<and> s' = s)"
| "resolvesInOrder resolve injector ctx (b # bs) s rs s' =
     (case rs of
        [] \<Rightarrow> False
      | r # rs' \<Rightarrow>
          (case getScopedInstanceFromBinding resolve injector ctx b s of
             Ret ((r', e), s1) \<Rightarrow>
               e = None \<and> r' = r \<and> r \<noteq> Invalid \<and> resolvesInOrder resolve injector ctx bs s1 rs' s'
           | Panic \<Rightarrow> False
           | Hang \<Rightarrow> False))"

subsection \<open>A concrete injector\<close>

text \<open>Bindings of a type \<open>Shape\<close> whose providers take no argument, log their number
  and return an object; a binding whose provider logs 12 and returns an error; the
  option that adds one binding to the configuration; the injectors assembled from two
  such configurations, with the singleton registry at address 0.\<close>

definition demoShape :: rtype where
  "demoShape = TInterface ''Shape''"

definition shapeBinding :: "nat \<Rightarrow> string \<Rightarrow> string \<Rightarrow> nat list binding" where
  "shapeBinding n name sc =
     \<lparr>addr = n, typeof = demoShape,
      provider = \<lparr>funcIn = [], funcOut = [TPtr (TOther name)],
                  funcBody = (\<lambda>args w. ([VObj (TPtr (TOther name)) n], w @ [n]))\<rparr>,
      providedType = TPtr (TOther name), annotatedWith = [], scope = sc,
      destroyMethod = None\<rparr>"

definition failingBinding :: "string \<Rightarrow> nat list binding" where
  "failingBinding sc =
     \<lparr>addr = 12, typeof = demoShape,
      provider = \<lparr>funcIn = [], funcOut = [TPtr (TOther ''Circle''), errorReflectType],
                  funcBody = (\<lambda>args w. ([VZero (TPtr (TOther ''Circle'')), VError (UserError ''boom'')],
                                          w @ [12]))\<rparr>,
      providedType = TPtr (TOther ''Circle''), annotatedWith = [], scope = sc,
      destroyMethod = None\<rparr>"

definition provide :: "'w binding \<Rightarrow> 'w Option" where
  "provide b cfg = Inr (cfg\<lparr>modBindings := modBindings cfg @ [b]\<rparr>)"

definition demoInjector :: "nat list Injector" where
  "demoInjector =
     assemble \<lparr>modBindings = [shapeBinding 10 ''Rectangle'' Singleton, shapeBinding 11 ''Square'' Singleton],
               modScopes = Map.empty\<rparr> 0 1 2"

definition failingInjector :: "nat list Injector" where
  "failingInjector =
     assemble \<lparr>modBindings = [shapeBinding 10 ''Rectangle'' Singleton, failingBinding PerLookUp],
               modScopes = Map.empty\<rparr> 0 1 2"

definition demoFresh :: "nat list st" where
  "demoFresh = \<lparr>heap = [0 \<mapsto> emptyRegistry], nextAddr = 3, world = []\<rparr>"

subsection \<open>Creating the singletons\<close>

text \<open>The bindings of a table in the order \<^verbatim>\<open>eagerlyCreateSingletons\<close> visits them, and
  those among them whose scope is the singleton scope.\<close>

definition tableBindings :: "'w table \<Rightarrow> 'w binding list" where
  "tableBindings tab = concat (map (\<lambda>(t, byAnnotation). concat (map snd byAnnotation)) tab)"

definition singletonBindings :: "'w Injector \<Rightarrow> 'w binding list" where
  "singletonBindings injector = filter (\<lambda>b. scope b = Singleton) (tableBindings (bindings injector))"

text \<open>What the specification says of the eager creation, in its words: each of the
  bindings is resolved once, in order, with a nil context; the first failure ends the
  creation and is returned, wrapped.\<close>

fun resolveEach ::
  "'w resolver \<Rightarrow> 'w Injector \<Rightarrow> 'w binding list \<Rightarrow> 'w st \<Rightarrow> (err option \<times> 'w st) result"
where
  "resolveEach resolve injector [] s = Ret (None, s)"
| "resolveEach resolve injector (b # bs) s =
     (case getScopedInstanceFromBinding resolve injector None b s of
        Ret ((v, e), s') \<Rightarrow>
          (case e of
             Some cause \<Rightarrow> Ret (Some (Errorf ''failed to get singleton instance: %w'' [] (Some cause)), s')
           | None \<Rightarrow> resolveEach resolve injector bs s')
      | Panic \<Rightarrow> Panic
      | Hang \<Rightarrow> Hang)"

text \<open>The injector that \<^verbatim>\<open>NewInjector\<close> builds from a configuration in state \<open>s\<close>, and the
  state in which it creates the singletons: the registry of the singleton scope, the
  injector and its own binding have been allocated.\<close>

definition builtInjector :: "'w configuration \<Rightarrow> 'w st \<Rightarrow> 'w Injector" where
  "builtInjector cfg s = assemble cfg (nextAddr s) (Suc (nextAddr s)) (Suc (Suc (nextAddr s)))"

definition buildState :: "'w st \<Rightarrow> 'w st" where
  "buildState s =
     s\<lparr>heap := (heap s)(nextAddr s \<mapsto> emptyRegistry), nextAddr := Suc (Suc (Suc (nextAddr s)))\<rparr>"

text \<open>Options and configurations for the concrete injectors above, and one with a failing
  singleton binding.\<close>

definition demoInitial :: "nat list st" where
  "demoInitial = \<lparr>heap = Map.empty, nextAddr = 0, world = []\<rparr>"

definition demoOptions :: "nat list Option list" where
  "demoOptions = [provide (shapeBinding 10 ''Rectangle'' Singleton), provide (shapeBinding 11 ''Square'' Singleton)]"

definition demoConfiguration :: "nat list configuration" where
  "demoConfiguration =
     \<lparr>modBindings = [shapeBinding 10 ''Rectangle'' Singleton, shapeBinding 11 ''Square'' Singleton],
      modScopes = Map.empty\<rparr>"

definition failingOptions :: "nat list Option list" where
  "failingOptions = [provide (failingBinding Singleton)]"

definition failingConfiguration :: "nat list configuration" where
  "failingConfiguration = \<lparr>modBindings = [failingBinding Singleton], modScopes = Map.empty\<rparr>"

definition failingBuilt :: "nat list Injector" where
  "failingBuilt = builtInjector failingConfiguration demoInitial"

subsection \<open>A binding in a contextual scope whose construction fails\<close>

text \<open>A binding of a type \<open>Request\<close> in a contextual scope named \<open>request\<close>, whose provider
  needs a value of a type that has no binding; a function that takes a \<open>Request\<close>; the
  context and the state after the scope has been entered.\<close>

definition requestType :: rtype where
  "requestType = TPtr (TOther ''Request'')"

definition requestBinding :: "nat list binding" where
  "requestBinding =
     \<lparr>addr = 20, typeof = requestType,
      provider = \<lparr>funcIn = [TPtr (TOther ''Missing'')], funcOut = [requestType],
                  funcBody = (\<lambda>args w. ([VObj requestType 20], w @ [20]))\<rparr>,
      providedType = requestType, annotatedWith = [], scope = ''request'',
      destroyMethod = None\<rparr>"

definition requestInjector :: "nat list Injector" where
  "requestInjector =
     assemble \<lparr>modBindings = [requestBinding],
               modScopes = [''request'' \<mapsto> ContextualScope (AnyOther 1)]\<rparr> 0 1 2"

definition requestConsumer :: "nat list gofunc" where
  "requestConsumer = \<lparr>funcIn = [requestType], funcOut = [], funcBody = (\<lambda>args w. ([], w @ [99]))\<rparr>"

definition requestContext :: Context where
  "requestContext = WithValue Background (AnyOther 1) (AnyRegistry 3)"

definition requestState :: "nat list st" where
  "requestState = \<lparr>heap = [0 \<mapsto> emptyRegistry, 3 \<mapsto> emptyRegistry], nextAddr = 4, world = []\<rparr>"

section \<open>The instance registry: memoization\<close>

lemma memoLe_refl: "memoLe s s"
  by (simp add: memoLe_def)

lemma memoLe_trans: "memoLe s s' \<Longrightarrow> memoLe s' s'' \<Longrightarrow> memoLe s s''"
  by (simp add: memoLe_def)

lemma memoExt_refl: "memoExt P s s"
  by (simp add: memoExt_def)

lemma memoExt_trans: "memoExt P s s' \<Longrightarrow> memoExt P s' s'' \<Longrightarrow> memoExt P s s''"
  unfolding memoExt_def by blast

lemma memoExt_memoLe: "memoExt P s s' \<Longrightarrow> memoLe s s'"
  by (simp add: memoExt_def memoLe_def)

lemma memoLe_memoExt: "memoLe s s' = memoExt (\<lambda>b v. True) s s'"
  by (auto simp: memoExt_def memoLe_def)

lemma resolveBinding_memoizes:
  "resolveBinding r b c s = Ret ((v, e), s') \<Longrightarrow> memoized r b v s'"
  by (auto simp: resolveBinding_def memoized_def
           split: option.splits if_splits result.splits prod.splits)

lemma resolveBinding_memoized:
  "memoized r b v s \<Longrightarrow> resolveBinding r b c s = Ret ((v, None), s)"
  by (auto simp: resolveBinding_def memoized_def split: option.splits)

text \<open>A resolution adds the construction of its binding and what its creator adds.\<close>

lemma resolveBinding_memoExt:
  assumes c: "\<And>s0 inst e s1. c s0 = Ret ((inst, e), s1) \<Longrightarrow> memoExt P s0 s1 \<and> P b inst"
      and res: "resolveBinding r b c s = Ret (x, s')"
  shows "memoExt P s s'"
proof (cases "heap s r")
  case None
  with res show ?thesis by (simp add: resolveBinding_def)
next
  case (Some reg)
  note hs = Some
  show ?thesis
  proof (cases "instanceLock reg b")
    case (Some held)
    with hs res have "s' = s"
      by (auto simp: resolveBinding_def split: if_splits option.splits)
    then show ?thesis by (simp add: memoExt_refl)
  next
    case None
    let ?s0 = "s\<lparr>heap := (heap s)(r \<mapsto> reg\<lparr>instanceLock := (instanceLock reg)(b \<mapsto> True)\<rparr>)\<rparr>"
    from None hs res
    obtain inst e s1 reg1 where
      cr: "c ?s0 = Ret ((inst, e), s1)" and h1: "heap s1 r = Some reg1" and
      s': "s' = s1\<lparr>heap := (heap s1)(r \<mapsto>
                 reg1\<lparr>instances := (instances reg1)(b \<mapsto> inst),
                      instanceLock := (instanceLock reg1)(b \<mapsto> False)\<rparr>)\<rparr>"
      by (auto simp: resolveBinding_def split: result.splits option.splits prod.splits)
    from c [OF cr] have le: "memoExt P ?s0 s1" and pb: "P b inst" by simp_all
    have a: "memoized r' b' v' ?s0 = (memoized r' b' v' s \<and> \<not> (r' = r \<and> b' = b))" for r' b' v'
      using None hs by (auto simp: memoized_def split: option.splits)
    have b: "memoized r' b' v' s' =
               (if r' = r \<and> b' = b then v' = inst else memoized r' b' v' s1)" for r' b' v'
      using h1 by (auto simp: memoized_def s' split: option.splits)
    have n: "\<not> memoized r b v' s" for v'
      using None hs by (simp add: memoized_def)
    show ?thesis
      unfolding memoExt_def
    proof (intro allI conjI impI)
      fix r' b' v'
      assume m: "memoized r' b' v' s"
      with n have ne: "\<not> (r' = r \<and> b' = b)" by blast
      with m a have "memoized r' b' v' ?s0" by simp
      with le have "memoized r' b' v' s1" unfolding memoExt_def by blast
      with ne b show "memoized r' b' v' s'" by auto
    next
      fix r' b' v'
      assume m: "memoized r' b' v' s'"
      show "memoized r' b' v' s \<or> P b' v'"
      proof (cases "r' = r \<and> b' = b")
        case True
        with m b pb show ?thesis by auto
      next
        case False
        with m b have "memoized r' b' v' s1" by auto
        with le have "memoized r' b' v' ?s0 \<or> P b' v'" unfolding memoExt_def by blast
        with a show ?thesis by blast
      qed
    qed
  qed
qed

lemma resolveBinding_memoLe:
  assumes "keepsMemo c" and "resolveBinding r b c s = Ret (x, s')"
  shows "memoLe s s'"
proof -
  have "memoExt (\<lambda>b v. True) s0 s1 \<and> True" if "c s0 = Ret ((inst, e), s1)" for s0 inst e s1
    using assms(1) that by (auto simp: keepsMemo_def memoLe_memoExt)
  from resolveBinding_memoExt [of c "\<lambda>b v. True", OF this assms(2)]
  show ?thesis by (simp add: memoLe_memoExt)
qed

lemma registerDestructionCallback_memoExt:
  "registerDestructionCallback r cb s = Ret s' \<Longrightarrow> memoExt P s s'"
  by (auto simp: registerDestructionCallback_def memoExt_def memoized_def
           split: option.splits if_splits)

lemma shutdown_memoExt:
  "shutdown r s = Ret s' \<Longrightarrow> memoExt P s s'"
  by (auto simp: shutdown_def memoExt_def memoized_def split: option.splits if_splits)

lemma later_memoLe: "later s s' \<Longrightarrow> memoLe s s'"
proof (induction rule: later.induct)
  case (later_refl s)
  show ?case by (rule memoLe_refl)
next
  case (later_resolve s s' c r b x s'')
  then show ?case by (blast intro: memoLe_trans resolveBinding_memoLe)
next
  case (later_register s s' r cb s'')
  then show ?case
    by (blast intro: memoLe_trans memoExt_memoLe registerDestructionCallback_memoExt)
next
  case (later_shutdown s s' r s'')
  then show ?case by (blast intro: memoLe_trans memoExt_memoLe shutdown_memoExt)
qed

lemma demoCreator_keepsMemo: "keepsMemo (demoCreator n)"
  by (auto simp: keepsMemo_def demoCreator_def memoLe_def memoized_def)

lemma demoResolved_reached:
  "resolveBinding 0 1 (demoCreator 7) demoState = Ret ((VObj (TOther ''T'') 7, None), demoResolved)"
  by (simp add: resolveBinding_def demoCreator_def demoState_def emptyRegistry_def demoResolved_def)

text \<open>
  Claim C1. Once a call of \<^verbatim>\<open>resolveBinding\<close> for a binding \<open>b\<close> on a registry \<open>r\<close> has
  returned a value \<open>v\<close>, every call for \<open>b\<close> on \<open>r\<close> in any later state, whatever creator
  \<open>c'\<close> it is given, returns \<open>v\<close> and leaves the state as it is: the creator is not
  invoked. So over a sequence of calls at most one creator of \<open>b\<close> runs, the one of the
  first call, and the later calls return the value the first call stored. Later states
  are those reached by calls of \<^verbatim>\<open>resolveBinding\<close>, \<^verbatim>\<open>registerDestructionCallback\<close> and
  \<^verbatim>\<open>shutdown\<close> on any registry, in one goroutine.
\<close>

theorem resolveBinding_at_most_once:
  assumes "resolveBinding r b c s = Ret ((v, e), s1)" and "later s1 s2"
  shows "resolveBinding r b c' s2 = Ret ((v, None), s2)"
proof -
  from assms(1) have "memoized r b v s1" by (rule resolveBinding_memoizes)
  with later_memoLe [OF assms(2)] have "memoized r b v s2" by (simp add: memoLe_def)
  then show ?thesis by (rule resolveBinding_memoized)
qed

theorem resolveBinding_at_most_once_witness:
  "\<exists>s1 s2. resolveBinding 0 1 (demoCreator 7) demoState = Ret ((VObj (TOther ''T'') 7, None), s1) \<and>
           world s1 = [7] \<and>
           resolveBinding 0 2 (demoCreator 8) s1 = Ret ((VObj (TOther ''T'') 8, None), s2) \<and>
           world s2 = [7, 8] \<and>
           resolveBinding 0 1 (demoCreator 9) s2 = Ret ((VObj (TOther ''T'') 7, None), s2)"
proof -
  obtain s1 where
    s1: "resolveBinding 0 1 (demoCreator 7) demoState = Ret ((VObj (TOther ''T'') 7, None), s1)"
    and h1: "heap s1 0 = Some \<lparr>instanceLock = [1 \<mapsto> False],
                               instances = [1 \<mapsto> VObj (TOther ''T'') 7],
                               destroyMethods = []\<rparr>"
    and w1: "world s1 = [7]"
    by (simp add: resolveBinding_def demoCreator_def demoState_def emptyRegistry_def)
  obtain s2 where
    s2: "resolveBinding 0 2 (demoCreator 8) s1 = Ret ((VObj (TOther ''T'') 8, None), s2)"
    and w2: "world s2 = [7, 8]"
    using h1 w1 by (simp add: resolveBinding_def demoCreator_def)
  have "later s1 s2"
    using later_resolve [OF later_refl demoCreator_keepsMemo s2] .
  from resolveBinding_at_most_once [OF s1 this, of "demoCreator 9"] s1 s2 w1 w2
  show ?thesis by blast
qed

text \<open>
  Claim C2, at a failing creator. The first call returns the error of the creator; the
  second call does not run the creator again, but returns the stored value with a nil
  error: the failure is not stored, and \<^verbatim>\<open>resolveBinding\<close> returns \<^verbatim>\<open>nil\<close> as the error of
  every memoized result.
\<close>

theorem resolveBinding_drops_memoized_error:
  "\<exists>s1. resolveBinding 0 1 demoFailing demoState = Ret ((Invalid, Some (UserError ''boom'')), s1) \<and>
        world s1 = [0] \<and>
        resolveBinding 0 1 demoFailing s1 = Ret ((Invalid, None), s1)"
  by (simp add: resolveBinding_def demoFailing_def demoState_def emptyRegistry_def)

section \<open>Contextual scopes\<close>

text \<open>
  Claim C3, as amended. With a context that carries no instance registry under the key of
  a contextual scope (a nil context included), \<^verbatim>\<open>ResolveBinding\<close> returns the zero instance
  and \<^verbatim>\<open>contextScopedNotActiveError\<close>, and the state is unchanged: the creator is not
  invoked. With such a context that is not nil, \<^verbatim>\<open>RegisterDestructionCallback\<close>, which
  has no result to report an error with, returns and leaves the state unchanged: the
  callback is not stored.
\<close>

theorem contextual_scope_not_active:
  assumes "carriesNoRegistry ctx key"
  shows "ResolveBinding (ContextualScope key) ctx b creator s =
           Ret ((Invalid, Some contextScopedNotActiveError), s) \<and>
         (ctx \<noteq> None \<longrightarrow> RegisterDestructionCallback (ContextualScope key) ctx cb s = Ret s)"
  using assms
  by (auto simp: carriesNoRegistry_def newContextScopedNotActiveError_def
           split: option.splits any.splits)

theorem contextual_scope_not_active_witness:
  "carriesNoRegistry (Some (WithValue Background (AnyOther 2) (AnyRegistry 0))) (AnyOther 1) \<and>
   ResolveBinding (ContextualScope (AnyOther 1))
       (Some (WithValue Background (AnyOther 2) (AnyRegistry 0))) 1 (demoCreator 7) demoState =
     Ret ((Invalid, Some contextScopedNotActiveError), demoState) \<and>
   RegisterDestructionCallback (ContextualScope (AnyOther 1))
       (Some (WithValue Background (AnyOther 2) (AnyRegistry 0))) (demoCallback 3) demoState =
     Ret demoState"
proof -
  have h: "carriesNoRegistry (Some (WithValue Background (AnyOther 2) (AnyRegistry 0))) (AnyOther 1)"
    by (simp add: carriesNoRegistry_def)
  from contextual_scope_not_active [OF h, of 1 "demoCreator 7" demoState "demoCallback 3"] h
  show ?thesis by simp
qed

text \<open>The claim as stated fails for \<^verbatim>\<open>RegisterDestructionCallback\<close>: with a background
  context, which carries no registry, it returns normally.\<close>

theorem register_callback_not_active_counterexample:
  "RegisterDestructionCallback (ContextualScope (AnyOther 1)) (Some Background) (demoCallback 3)
     demoState = Ret demoState"
  by simp

text \<open>
  Claim C4, as amended. After a contextual scope has been entered in a context and a
  binding resolved under it to a value \<open>v\<close>, exiting the scope for that context returns,
  and a resolution of that binding with the same context afterwards returns \<open>v\<close> and a nil
  error, without invoking the creator: the context still carries the registry, which
  \<^verbatim>\<open>shutdown\<close> leaves in place with its values.
\<close>

theorem resolve_after_exit_memoized:
  assumes enter: "WithContextualScopeEnabled ctx key s = Ret (ctx', s1)"
      and first: "ResolveBinding (ContextualScope key) (Some ctx') b c1 s1 = Ret ((v, e), s2)"
  shows "\<exists>s3. ShutdownContextualScope (Some ctx') key s2 = Ret s3 \<and>
              ResolveBinding (ContextualScope key) (Some ctx') b c2 s3 = Ret ((v, None), s3)"
proof -
  from enter obtain r where v: "Value ctx' key = AnyRegistry r"
    by (auto simp: WithContextualScopeEnabled_def newInstanceRegistry_def
             split: option.splits if_splits)
  with first have "resolveBinding r b c1 s1 = Ret ((v, e), s2)" by simp
  then have m: "memoized r b v s2" by (rule resolveBinding_memoizes)
  then obtain s3 where s3: "shutdown r s2 = Ret s3"
    by (auto simp: memoized_def shutdown_def split: option.splits)
  from memoExt_memoLe [OF shutdown_memoExt [OF s3]] m have "memoized r b v s3"
    by (simp add: memoLe_def)
  then have "resolveBinding r b c2 s3 = Ret ((v, None), s3)" by (rule resolveBinding_memoized)
  with v s3 show ?thesis by (simp add: ShutdownContextualScope_def)
qed

theorem resolve_after_exit_memoized_witness:
  "\<exists>ctx' s1 s2 s3.
     WithContextualScopeEnabled (Some Background) (AnyOther 1) demoState = Ret (ctx', s1) \<and>
     ResolveBinding (ContextualScope (AnyOther 1)) (Some ctx') 1 (demoCreator 7) s1 =
       Ret ((VObj (TOther ''T'') 7, None), s2) \<and>
     ShutdownContextualScope (Some ctx') (AnyOther 1) s2 = Ret s3 \<and>
     ResolveBinding (ContextualScope (AnyOther 1)) (Some ctx') 1 (demoCreator 9) s3 =
       Ret ((VObj (TOther ''T'') 7, None), s3)"
proof -
  obtain ctx' s1 where
    enter: "WithContextualScopeEnabled (Some Background) (AnyOther 1) demoState = Ret (ctx', s1)"
    and c: "ctx' = WithValue Background (AnyOther 1) (AnyRegistry 1)"
    and h: "heap s1 1 = Some emptyRegistry"
    by (simp add: WithContextualScopeEnabled_def newInstanceRegistry_def demoState_def)
  obtain s2 where
    first: "ResolveBinding (ContextualScope (AnyOther 1)) (Some ctx') 1 (demoCreator 7) s1 =
              Ret ((VObj (TOther ''T'') 7, None), s2)"
    using c h by (simp add: resolveBinding_def demoCreator_def emptyRegistry_def)
  from resolve_after_exit_memoized [OF enter first, of "demoCreator 9"] enter first
  show ?thesis by blast
qed

text \<open>The claim as stated fails: the second resolution returns the object made by the
  first, and no error.\<close>

theorem resolve_after_exit_counterexample:
  "enterResolveExitResolve (Some Background) (AnyOther 1) (1::nat) (demoCreator 7) (demoCreator 9)
     demoState =
     Ret ((VObj (TOther ''T'') 7, None), (VObj (TOther ''T'') 7, None))"
  by (simp add: enterResolveExitResolve_def WithContextualScopeEnabled_def newInstanceRegistry_def
        ShutdownContextualScope_def shutdown_def resolveBinding_def demoCreator_def demoState_def
        emptyRegistry_def)

section \<open>Teardown\<close>

lemma shutdownLoop_fold:
  "n \<le> length ds \<Longrightarrow> shutdownLoop ds n w = fold (\<lambda>c. c) (rev (take n ds)) w"
proof (induction n arbitrary: w)
  case 0
  then show ?case by simp
next
  case (Suc n)
  then have "n < length ds" by simp
  then have "take (Suc n) ds = take n ds @ [ds ! n]"
    by (simp add: take_Suc_conv_app_nth)
  with Suc show ?case by simp
qed

lemma registerAll_append:
  "heap s r = Some reg \<Longrightarrow>
   \<exists>s'. registerAll r cs s = Ret s' \<and>
        heap s' r = Some (reg\<lparr>destroyMethods := destroyMethods reg @ cs\<rparr>) \<and>
        world s' = world s"
proof (induction cs arbitrary: s reg)
  case Nil
  then show ?case by simp
next
  case (Cons c cs)
  let ?reg' = "reg\<lparr>destroyMethods := destroyMethods reg @ [c]\<rparr>"
  let ?s' = "s\<lparr>heap := (heap s)(r \<mapsto> ?reg')\<rparr>"
  have "heap ?s' r = Some ?reg'" by simp
  from Cons.IH [OF this] obtain s'' where
    "registerAll r cs ?s' = Ret s''"
    "heap s'' r = Some (?reg'\<lparr>destroyMethods := destroyMethods ?reg' @ cs\<rparr>)"
    "world s'' = world ?s'"
    by blast
  with Cons.prems show ?case by (simp add: registerDestructionCallback_def)
qed

text \<open>
  Claim C5. On a registry that holds the callbacks \<open>ds\<close> (none, for a registry that is
  new or has just been shut down), after the callbacks \<open>cs = [c1, ..., cn]\<close> have been
  registered in that order, one call of \<^verbatim>\<open>shutdown\<close> returns, and its effect on the world
  is that of \<open>cn\<close>, then ..., then \<open>c1\<close>, then the callbacks of \<open>ds\<close> from the last to the
  first: each registered callback is called once, the last registered first.
\<close>

theorem shutdown_reverse_order:
  assumes "heap s r = Some reg"
  shows "\<exists>s1 s2. registerAll r cs s = Ret s1 \<and> shutdown r s1 = Ret s2 \<and>
           world s2 = fold (\<lambda>c. c) (rev (destroyMethods reg @ cs)) (world s)"
proof -
  from registerAll_append [OF assms, of cs] obtain s1 where
    s1: "registerAll r cs s = Ret s1"
        "heap s1 r = Some (reg\<lparr>destroyMethods := destroyMethods reg @ cs\<rparr>)"
        "world s1 = world s"
    by blast
  then show ?thesis by (simp add: shutdown_def shutdownLoop_fold)
qed

theorem shutdown_reverse_order_witness:
  "\<exists>s1 s2. registerAll 0 [demoCallback 1, demoCallback 2, demoCallback 3] demoState = Ret s1 \<and>
           shutdown 0 s1 = Ret s2 \<and> world s2 = [3, 2, 1]"
proof -
  have h: "heap demoState 0 = Some emptyRegistry"
    by (simp add: demoState_def)
  from shutdown_reverse_order [OF h, of "[demoCallback 1, demoCallback 2, demoCallback 3]"]
  show ?thesis by (simp add: demoCallback_def demoState_def emptyRegistry_def)
qed

text \<open>
  Claim C6, as amended. \<^verbatim>\<open>shutdown\<close> returns and leaves the registry with an empty list of
  teardown callbacks and with its value map and its locks as they were; a second
  \<^verbatim>\<open>shutdown\<close> then changes nothing, in the registry or in the world: no callback is
  called twice.
\<close>

theorem shutdown_clears_callbacks_only:
  assumes "heap s r = Some reg"
  shows "\<exists>s1. shutdown r s = Ret s1 \<and> heap s1 r = Some (reg\<lparr>destroyMethods := []\<rparr>) \<and>
              shutdown r s1 = Ret s1"
  using assms by (simp add: shutdown_def fun_upd_idem)

theorem shutdown_clears_callbacks_only_witness:
  "\<exists>s1. shutdown 0 demoResolved = Ret s1 \<and>
        heap s1 0 = Some \<lparr>instanceLock = [1 \<mapsto> False],
                          instances = [1 \<mapsto> VObj (TOther ''T'') 7],
                          destroyMethods = []\<rparr> \<and>
        shutdown 0 s1 = Ret s1"
proof -
  have h: "heap demoResolved 0 = Some \<lparr>instanceLock = [1 \<mapsto> False],
                                       instances = [1 \<mapsto> VObj (TOther ''T'') 7],
                                       destroyMethods = []\<rparr>"
    by (simp add: demoResolved_def)
  from shutdown_clears_callbacks_only [OF h] show ?thesis by simp
qed

text \<open>The claim as stated fails: after \<^verbatim>\<open>shutdown\<close> the value map still holds the value
  of binding 1.\<close>

theorem shutdown_keeps_instances_counterexample:
  "\<exists>s1 reg. shutdown 0 demoResolved = Ret s1 \<and> heap s1 0 = Some reg \<and>
             instances reg 1 = Some (VObj (TOther ''T'') 7)"
  by (simp add: shutdown_def demoResolved_def)

section \<open>The resolution engine keeps finished constructions\<close>

lemma resolverKeepsD:
  "resolverKeeps P resolve \<Longrightarrow> resolve ctx t a opt s = Ret (x, s') \<Longrightarrow> memoExt P s s'"
  unfolding resolverKeeps_def keeps_def by blast

lemma RegisterDestructionCallback_memoExt:
  "RegisterDestructionCallback sc ctx cb s = Ret s' \<Longrightarrow> memoExt P s s'"
  by (cases sc)
     (auto simp: memoExt_refl registerDestructionCallback_memoExt split: option.splits any.splits)

lemma Call_memoExt: "Call f ins s = Ret (res, s') \<Longrightarrow> memoExt P s s'"
  by (auto simp: Call_def memoExt_def memoized_def split: if_splits prod.splits)

lemma setParamFieldsLoop_memoExt:
  assumes "resolverKeeps P resolve"
  shows "setParamFieldsLoop resolve ctx fs i vs s = Ret (x, s') \<Longrightarrow> memoExt P s s'"
proof (induction fs arbitrary: i vs s)
  case Nil
  then show ?case by (simp add: memoExt_refl)
next
  case (Cons f fs)
  note prem = Cons.prems
  show ?case
  proof (cases "fieldType f = paramType")
    case True
    with prem have "setParamFieldsLoop resolve ctx fs (Suc i) vs s = Ret (x, s')" by simp
    then show ?thesis by (rule Cons.IH)
  next
    case np: False
    show ?thesis
    proof (cases "map_of (fieldTag f) ''inject''")
      case None
      with np prem have "setParamFieldsLoop resolve ctx fs (Suc i) vs s = Ret (x, s')" by simp
      then show ?thesis by (rule Cons.IH)
    next
      case (Some tag)
      note tag = Some
      show ?thesis
      proof (cases "fieldExported f")
        case False
        with np tag prem have "s' = s" by simp
        then show ?thesis by (simp add: memoExt_refl)
      next
        case ex: True
        define opt where "opt = list_ex (\<lambda>option. TrimSpace option = ''optional'') (Split tag CHR '','')"
        from np tag ex prem have eq0:
          "(case Split tag CHR '','' of
              [] \<Rightarrow> Panic
            | tag' # rest \<Rightarrow>
               (case resolve ctx (fieldType f) tag' opt s of
                  Ret ((inst, e), s1) \<Rightarrow>
                    (case e of
                       Some er \<Rightarrow> Ret ((vs, Some (newInjectionError (fieldType f) tag' er)), s1)
                     | None \<Rightarrow>
                         if IsValid inst then
                           setParamFieldsLoop resolve ctx fs (Suc i) (vs[i := inst]) s1
                         else if opt then
                           setParamFieldsLoop resolve ctx fs (Suc i) vs s1
                         else
                           Ret ((vs, Some (newInjectionError (fieldType f) tag'
                                   (Errorf ''cannot get valid instance from scope'' [] None))), s1))
                | Panic \<Rightarrow> Panic
                | Hang \<Rightarrow> Hang)) = Ret (x, s')"
          unfolding opt_def by (simp add: Let_def)
        show ?thesis
        proof (cases "Split tag CHR '',''")
          case Nil
          with eq0 show ?thesis by simp
        next
          case (Cons tag' rest)
          note sp = Cons
          show ?thesis
          proof (cases "resolve ctx (fieldType f) tag' opt s")
            case (Ret y)
            obtain inst e s1 where y: "y = ((inst, e), s1)" by (metis surj_pair)
            from resolverKeepsD [OF assms Ret [unfolded y]] have le: "memoExt P s s1" .
            show ?thesis
            proof (cases e)
              case (Some er)
              with eq0 sp Ret y have "s' = s1" by simp
              with le show ?thesis by simp
            next
              case None
              with eq0 sp Ret y have
                "s' = s1 \<or> (\<exists>vs'. setParamFieldsLoop resolve ctx fs (Suc i) vs' s1 = Ret (x, s'))"
                by (auto split: if_splits)
              with le Cons.IH show ?thesis by (blast intro: memoExt_trans)
            qed
          next
            case Panic
            with eq0 sp show ?thesis by simp
          next
            case Hang
            with eq0 sp show ?thesis by simp
          qed
        qed
      qed
    qed
  qed
qed


lemma setParamFields_memoExt:
  assumes "resolverKeeps P resolve"
  shows "setParamFields resolve ctx pv s = Ret (x, s') \<Longrightarrow> memoExt P s s'"
proof -
  assume a: "setParamFields resolve ctx pv s = Ret (x, s')"
  then obtain t vs where pv: "pv = VStruct t vs"
    by (cases pv) (simp_all add: setParamFields_def)
  with a obtain n fs where t: "t = TStruct n fs"
    by (cases t) (simp_all add: setParamFields_def)
  from a pv t have "\<exists>y. setParamFieldsLoop resolve ctx fs 0 vs s = Ret (y, s')"
    by (auto simp: setParamFields_def split: result.splits prod.splits)
  then show ?thesis using setParamFieldsLoop_memoExt [OF assms] by blast
qed

lemma createEmbeddedParams_memoExt:
  assumes "resolverKeeps P resolve"
  shows "createEmbeddedParams resolve ctx t s = Ret (x, s') \<Longrightarrow> memoExt P s s'"
proof -
  assume a: "createEmbeddedParams resolve ctx t s = Ret (x, s')"
  show ?thesis
  proof (cases t)
    case (TPtr el)
    with a obtain y where "setParamFields resolve ctx (newValue el) s = Ret (y, s')"
      by (auto simp: createEmbeddedParams_def split: result.splits prod.splits)
    then show ?thesis by (rule setParamFields_memoExt [OF assms])
  qed (use a in \<open>auto simp: createEmbeddedParams_def dest: setParamFields_memoExt [OF assms]\<close>)
qed

lemma getFunctionArgumentInstance_memoExt:
  assumes "resolverKeeps P resolve"
  shows "getFunctionArgumentInstance resolve ctx t s = Ret (x, s') \<Longrightarrow> memoExt P s s'"
  using createEmbeddedParams_memoExt [OF assms] resolverKeepsD [OF assms]
  by (auto simp: getFunctionArgumentInstance_def split: if_splits)


lemma argumentLoop_memoExt:
  assumes "resolverKeeps P resolve"
  shows "argumentLoop resolve ctx ts i ins s = Ret (x, s') \<Longrightarrow> memoExt P s s'"
proof (induction ts arbitrary: i ins s)
  case Nil
  then show ?case by (simp add: memoExt_refl)
next
  case (Cons t ts)
  from Cons.prems obtain v e s1 where
    g: "getFunctionArgumentInstance resolve ctx t s = Ret ((v, e), s1)" and
    k: "s' = s1 \<or> argumentLoop resolve ctx ts (Suc i) (ins @ [v]) s1 = Ret (x, s')"
    by (auto split: option.splits result.splits prod.splits)
  from getFunctionArgumentInstance_memoExt [OF assms g] have "memoExt P s s1" .
  with k Cons.IH show ?case by (blast intro: memoExt_trans)
qed

lemma callFunctionWithArgumentInstance_memoExt:
  assumes "resolverKeeps P resolve"
  shows "callFunctionWithArgumentInstance resolve ctx f s = Ret (x, s') \<Longrightarrow> memoExt P s s'"
proof -
  assume a: "callFunctionWithArgumentInstance resolve ctx f s = Ret (x, s')"
  then obtain ins e s1 where
    g: "argumentLoop resolve ctx (funcIn f) 0 [] s = Ret ((ins, e), s1)" and
    k: "s' = s1 \<or> (\<exists>res. Call f ins s1 = Ret (res, s'))"
    by (auto simp: callFunctionWithArgumentInstance_def
             split: option.splits result.splits prod.splits)
  from argumentLoop_memoExt [OF assms g] have "memoExt P s s1" .
  with k Call_memoExt show ?thesis by (blast intro: memoExt_trans)
qed

lemma create_memoExt:
  assumes "resolverKeeps P resolve"
  shows "create resolve ctx b s = Ret (x, s') \<Longrightarrow> memoExt P s s'"
proof -
  assume a: "create resolve ctx b s = Ret (x, s')"
  then obtain res e where
    "callFunctionWithArgumentInstance resolve ctx (provider b) s = Ret ((res, e), s')"
    by (auto simp: create_def split: option.splits result.splits prod.splits if_splits)
  then show ?thesis by (rule callFunctionWithArgumentInstance_memoExt [OF assms])
qed

lemma instanceCreator_memoExt:
  assumes "resolverKeeps P resolve"
  shows "instanceCreator resolve sc ctx b s = Ret (x, s') \<Longrightarrow> memoExt P s s'"
proof -
  assume a: "instanceCreator resolve sc ctx b s = Ret (x, s')"
  then obtain v e s1 where
    g: "create resolve ctx b s = Ret ((v, e), s1)" and
    k: "s' = s1 \<or> (\<exists>cb. RegisterDestructionCallback sc ctx cb s1 = Ret s')"
    by (auto simp: instanceCreator_def split: option.splits result.splits prod.splits if_splits)
  from create_memoExt [OF assms g] have "memoExt P s s1" .
  with k RegisterDestructionCallback_memoExt show ?thesis by (blast intro: memoExt_trans)
qed


lemma ResolveBinding_memoExt:
  assumes "resolverKeeps P resolve" and "creatorSound P"
  shows "ResolveBinding sc ctx b (instanceCreator resolve sc' ctx' b) s = Ret (x, s') \<Longrightarrow> memoExt P s s'"
proof -
  assume a: "ResolveBinding sc ctx b (instanceCreator resolve sc' ctx' b) s = Ret (x, s')"
  have c: "memoExt P s0 s1 \<and> P b inst"
    if "instanceCreator resolve sc' ctx' b s0 = Ret ((inst, e), s1)" for s0 inst e s1
    using that instanceCreator_memoExt [OF assms(1)] assms(2)
    unfolding creatorSound_def by blast
  note rb = resolveBinding_memoExt [of "instanceCreator resolve sc' ctx' b" P b, OF c]
  show ?thesis
  proof (cases sc)
    case PerLookUpScope
    with a instanceCreator_memoExt [OF assms(1)] show ?thesis by simp
  next
    case (SingletonScope r)
    with a rb show ?thesis by simp
  next
    case (ContextualScope key)
    show ?thesis
    proof (cases ctx)
      case None
      with a ContextualScope show ?thesis by (simp add: memoExt_refl)
    next
      case (Some c)
      with a ContextualScope rb show ?thesis
        by (cases "Value c key") (simp_all add: memoExt_refl)
    qed
  qed
qed

lemma getScopedInstanceFromBinding_memoExt:
  assumes "resolverKeeps P resolve" and "creatorSound P"
  shows "getScopedInstanceFromBinding resolve injector ctx b s = Ret (x, s') \<Longrightarrow> memoExt P s s'"
  using ResolveBinding_memoExt [OF assms]
  by (cases "getScopeFromBinding injector b")
     (auto simp: getScopedInstanceFromBinding_def memoExt_refl)

lemma sliceLoop_memoExt:
  assumes "resolverKeeps P resolve" and "creatorSound P"
  shows "sliceLoop resolve injector ctx t bs n s = Ret (x, s') \<Longrightarrow> memoExt P s s'"
proof (induction bs arbitrary: n s)
  case Nil
  then show ?case by (simp add: memoExt_refl)
next
  case (Cons b bs)
  from Cons.prems obtain r e s1 where
    g: "getScopedInstanceFromBinding resolve injector ctx b s = Ret ((r, e), s1)" and
    k: "s' = s1 \<or> sliceLoop resolve injector ctx t bs (n @ [r]) s1 = Ret (x, s')"
    by (auto split: option.splits result.splits prod.splits if_splits)
  from getScopedInstanceFromBinding_memoExt [OF assms g] have "memoExt P s s1" .
  with k Cons.IH show ?case by (blast intro: memoExt_trans)
qed

lemma getInstanceOfAnnotatedTypeBody_memoExt:
  assumes "resolverKeeps P resolve" and "creatorSound P"
      and a: "getInstanceOfAnnotatedTypeBody resolve injector ctx t annotation optional s = Ret (x, s')"
  shows "memoExt P s s'"
proof -
  from a have
    "s' = s \<or> (\<exists>bs n. sliceLoop resolve injector ctx t bs n s = Ret (x, s')) \<or>
     (\<exists>b. getScopedInstanceFromBinding resolve injector ctx b s = Ret (x, s'))"
    by (cases t) (auto simp: getInstanceOfAnnotatedTypeBody_def Let_def split: if_splits)
  then show ?thesis
    using sliceLoop_memoExt [OF assms(1,2)] getScopedInstanceFromBinding_memoExt [OF assms(1,2)]
    by (blast intro: memoExt_refl)
qed

lemma getInstanceOfAnnotatedType_keeps:
  assumes "creatorSound P"
  shows "resolverKeeps P (getInstanceOfAnnotatedType fuel injector)"
proof (induction fuel)
  case 0
  show ?case by (simp add: resolverKeeps_def keeps_def)
next
  case (Suc fuel)
  show ?case
    unfolding resolverKeeps_def keeps_def
    using getInstanceOfAnnotatedTypeBody_memoExt [OF Suc assms] by auto
qed

lemma creatorSound_True: "creatorSound (\<lambda>b v. True)"
  by (simp add: creatorSound_def)

text \<open>The creators that the injector hands to its scopes are among those that the
  relation \<open>later\<close> admits.\<close>

lemma instanceCreator_keepsMemo:
  "keepsMemo (instanceCreator (getInstanceOfAnnotatedType fuel injector) sc ctx b)"
  unfolding keepsMemo_def
  using instanceCreator_memoExt [OF getInstanceOfAnnotatedType_keeps [OF creatorSound_True]]
    memoExt_memoLe
  by blast

section \<open>Resolving a type request\<close>

lemma sliceLoop_success:
  "resolvesInOrder resolve injector ctx bs s rs s' \<Longrightarrow>
   sliceLoop resolve injector ctx t bs n s = Ret ((VSlice t (n @ rs), None), s') \<and>
   length rs = length bs"
proof (induction bs arbitrary: s rs n)
  case Nil
  then show ?case by simp
next
  case (Cons b bs)
  from Cons.prems obtain r rs' s1 where
    rs: "rs = r # rs'" and
    g: "getScopedInstanceFromBinding resolve injector ctx b s = Ret ((r, None), s1)" and
    v: "r \<noteq> Invalid" and
    rest: "resolvesInOrder resolve injector ctx bs s1 rs' s'"
    by (auto split: list.splits result.splits prod.splits)
  from Cons.IH [OF rest, of "n @ [r]"] g v rs show ?case by simp
qed

lemma sliceLoop_failure:
  "resolvesInOrder resolve injector ctx pre s rs s1 \<Longrightarrow>
   getScopedInstanceFromBinding resolve injector ctx b s1 = Ret ((v, Some e), s') \<Longrightarrow>
   sliceLoop resolve injector ctx t (pre @ b # post) n s = Ret ((Invalid, Some e), s')"
proof (induction pre arbitrary: s rs n)
  case Nil
  then show ?case by simp
next
  case (Cons a pre)
  from Cons.prems(1) obtain r rs' s0 where
    rs: "rs = r # rs'" and
    g: "getScopedInstanceFromBinding resolve injector ctx a s = Ret ((r, None), s0)" and
    v: "r \<noteq> Invalid" and
    rest: "resolvesInOrder resolve injector ctx pre s0 rs' s1"
    by (auto split: list.splits result.splits prod.splits)
  from Cons.IH [OF rest Cons.prems(2), of "n @ [r]"] g v show ?case by simp
qed

lemma demoInjector_find:
  "findBindingsForAnnotatedType demoInjector demoShape [] =
     [shapeBinding 10 ''Rectangle'' Singleton, shapeBinding 11 ''Square'' Singleton]"
  by (simp add: findBindingsForAnnotatedType_def demoInjector_def assemble_def addBinding_def
        shapeBinding_def demoShape_def injectorType_def)

lemma failingInjector_find:
  "findBindingsForAnnotatedType failingInjector demoShape [] =
     [shapeBinding 10 ''Rectangle'' Singleton, failingBinding PerLookUp]"
  by (simp add: findBindingsForAnnotatedType_def failingInjector_def assemble_def addBinding_def
        shapeBinding_def failingBinding_def demoShape_def injectorType_def)

lemma demo_scopes:
  "getScopeFromBinding demoInjector (shapeBinding n name Singleton) = Inr (SingletonScope 0)"
  "getScopeFromBinding failingInjector (shapeBinding n name Singleton) = Inr (SingletonScope 0)"
  "getScopeFromBinding failingInjector (failingBinding PerLookUp) = Inr PerLookUpScope"
  by (simp_all add: getScopeFromBinding_def demoInjector_def failingInjector_def assemble_def
        shapeBinding_def failingBinding_def Singleton_def PerLookUp_def)

lemma create_shape:
  "create resolve ctx (shapeBinding n name sc) s =
     Ret ((VObj (TPtr (TOther name)) n, None), s\<lparr>world := world s @ [n]\<rparr>)"
  by (simp add: create_def callFunctionWithArgumentInstance_def Call_def shapeBinding_def)

lemma instanceCreator_shape:
  "instanceCreator resolve sc' ctx (shapeBinding n name sc) s =
     Ret ((VObj (TPtr (TOther name)) n, None), s\<lparr>world := world s @ [n]\<rparr>)"
  by (simp add: instanceCreator_def create_shape) (simp add: shapeBinding_def)

lemma instanceCreator_failing:
  "instanceCreator resolve sc' ctx (failingBinding sc) s =
     Ret ((VZero (TPtr (TOther ''Circle'')),
           Some (Errorf ''provider for type %q returned error: %w''
                   [ArgType (TPtr (TOther ''Circle''))] (Some (UserError ''boom'')))),
          s\<lparr>world := world s @ [12]\<rparr>)"
  by (simp add: instanceCreator_def create_def callFunctionWithArgumentInstance_def Call_def
        failingBinding_def)

lemma shape_distinct: "n \<noteq> m \<Longrightarrow> (shapeBinding n a b = shapeBinding m c d) = False"
  by (simp add: shapeBinding_def)

text \<open>
  Claim C8. For a type that is not a slice, not a provider function type and not the
  invocation context type, with no binding under the annotation: with fuel for one call,
  \<^verbatim>\<open>getInstanceOfAnnotatedType\<close> returns, for a non-optional request, the injection error
  "did not found binding, expected one", and for an optional request the zero (invalid)
  Value and no error; the state is unchanged.
\<close>

theorem no_binding_expected_one:
  assumes "findBindingsForAnnotatedType injector t annotation = []"
      and "Kind t \<noteq> Slice" and "\<not> isProviderType t" and "t \<noteq> invocationContextReflectType"
  shows "getInstanceOfAnnotatedType (Suc fuel) injector ctx t annotation False s =
           Ret ((Invalid, Some (injectionError t annotation
                                  (Errorf ''did not found binding, expected one'' [] None))), s) \<and>
         getInstanceOfAnnotatedType (Suc fuel) injector ctx t annotation True s =
           Ret ((Invalid, None), s)"
  using assms
  by (cases t) (simp_all add: getInstanceOfAnnotatedTypeBody_def newInjectionError_def)

theorem no_binding_expected_one_witness:
  "getInstanceOfAnnotatedType (Suc 0) demoInjector (Some Background) (TPtr (TOther ''Parent'')) []
       False demoFresh =
     Ret ((Invalid, Some (injectionError (TPtr (TOther ''Parent'')) []
                            (Errorf ''did not found binding, expected one'' [] None))), demoFresh) \<and>
   getInstanceOfAnnotatedType (Suc 0) demoInjector (Some Background) (TPtr (TOther ''Parent'')) []
       True demoFresh =
     Ret ((Invalid, None), demoFresh)"
proof -
  have f: "findBindingsForAnnotatedType demoInjector (TPtr (TOther ''Parent'')) [] = []"
    by (simp add: findBindingsForAnnotatedType_def demoInjector_def assemble_def addBinding_def
          shapeBinding_def demoShape_def injectorType_def)
  have k: "Kind (TPtr (TOther ''Parent'')) \<noteq> Slice" by simp
  have p: "\<not> isProviderType (TPtr (TOther ''Parent''))" by (simp add: isProviderType_def)
  have c: "TPtr (TOther ''Parent'') \<noteq> invocationContextReflectType"
    by (simp add: invocationContextReflectType_def)
  from no_binding_expected_one [OF f k p c] show ?thesis by blast
qed

text \<open>
  Claim C7, as amended. For a request of the slice type of \<open>el\<close> under an annotation, \<open>bs\<close>
  being the binding list of the table for \<open>el\<close> and the annotation: if \<open>bs\<close> is not empty
  and its bindings, resolved in the order of the list, each return a valid instance and no
  error, the result is the slice of exactly these instances in that order, one per
  binding; if the resolution of a binding of \<open>bs\<close> returns an error after those before it
  succeeded, the request returns that error; if \<open>bs\<close> is empty, an optional request
  returns the empty slice and no error, and a non-optional one the injection error
  "did not found binding, expected at least one".
\<close>

theorem slice_resolution:
  assumes "findBindingsForAnnotatedType injector el annotation = bs"
  shows
    "(bs \<noteq> [] \<and> resolvesInOrder (getInstanceOfAnnotatedType fuel injector) injector ctx bs s rs s' \<longrightarrow>
        getInstanceOfAnnotatedType (Suc fuel) injector ctx (TSlice el) annotation optional s =
          Ret ((VSlice (TSlice el) rs, None), s') \<and> length rs = length bs) \<and>
     (bs = pre @ b # post \<and>
      resolvesInOrder (getInstanceOfAnnotatedType fuel injector) injector ctx pre s rs sm \<and>
      getScopedInstanceFromBinding (getInstanceOfAnnotatedType fuel injector) injector ctx b sm =
        Ret ((v, Some e), s') \<longrightarrow>
        getInstanceOfAnnotatedType (Suc fuel) injector ctx (TSlice el) annotation optional s =
          Ret ((Invalid, Some e), s')) \<and>
     (bs = [] \<longrightarrow>
        getInstanceOfAnnotatedType (Suc fuel) injector ctx (TSlice el) annotation True s =
          Ret ((VSlice (TSlice el) [], None), s) \<and>
        getInstanceOfAnnotatedType (Suc fuel) injector ctx (TSlice el) annotation False s =
          Ret ((VSlice (TSlice el) [],
                Some (injectionError el annotation
                        (Errorf ''did not found binding, expected at least one'' [] None))), s))"
proof (intro conjI impI)
  assume a: "bs \<noteq> [] \<and> resolvesInOrder (getInstanceOfAnnotatedType fuel injector) injector ctx bs s rs s'"
  then have r: "resolvesInOrder (getInstanceOfAnnotatedType fuel injector) injector ctx bs s rs s'"
    by simp
  from sliceLoop_success [OF r, of "TSlice el" "[]"] a assms
  show "getInstanceOfAnnotatedType (Suc fuel) injector ctx (TSlice el) annotation optional s =
          Ret ((VSlice (TSlice el) rs, None), s')"
    by (simp add: getInstanceOfAnnotatedTypeBody_def)
  from sliceLoop_success [OF r, of "TSlice el" "[]"]
  show "length rs = length bs" by simp
next
  assume a: "bs = pre @ b # post \<and>
      resolvesInOrder (getInstanceOfAnnotatedType fuel injector) injector ctx pre s rs sm \<and>
      getScopedInstanceFromBinding (getInstanceOfAnnotatedType fuel injector) injector ctx b sm =
        Ret ((v, Some e), s')"
  then have r: "resolvesInOrder (getInstanceOfAnnotatedType fuel injector) injector ctx pre s rs sm"
    and g: "getScopedInstanceFromBinding (getInstanceOfAnnotatedType fuel injector) injector ctx b sm =
        Ret ((v, Some e), s')"
    by simp_all
  from sliceLoop_failure [OF r g, of "TSlice el" post "[]"] a assms
  show "getInstanceOfAnnotatedType (Suc fuel) injector ctx (TSlice el) annotation optional s =
          Ret ((Invalid, Some e), s')"
    by (simp add: getInstanceOfAnnotatedTypeBody_def)
next
  assume "bs = []"
  with assms show "getInstanceOfAnnotatedType (Suc fuel) injector ctx (TSlice el) annotation True s =
          Ret ((VSlice (TSlice el) [], None), s)"
    by (simp add: getInstanceOfAnnotatedTypeBody_def)
next
  assume "bs = []"
  with assms show "getInstanceOfAnnotatedType (Suc fuel) injector ctx (TSlice el) annotation False s =
          Ret ((VSlice (TSlice el) [],
                Some (injectionError el annotation
                        (Errorf ''did not found binding, expected at least one'' [] None))), s)"
    by (simp add: getInstanceOfAnnotatedTypeBody_def newInjectionError_def)
qed


theorem slice_resolution_witness:
  "(\<exists>s'. getInstanceOfAnnotatedType (Suc 0) demoInjector (Some Background) (TSlice demoShape) []
            False demoFresh =
          Ret ((VSlice (TSlice demoShape)
                  [VObj (TPtr (TOther ''Rectangle'')) 10, VObj (TPtr (TOther ''Square'')) 11], None), s') \<and>
          world s' = [10, 11]) \<and>
   (\<exists>s'. getInstanceOfAnnotatedType (Suc 0) failingInjector (Some Background) (TSlice demoShape) []
            False demoFresh =
          Ret ((Invalid,
                Some (Errorf ''provider for type %q returned error: %w''
                        [ArgType (TPtr (TOther ''Circle''))] (Some (UserError ''boom'')))), s') \<and>
          world s' = [10, 12]) \<and>
   getInstanceOfAnnotatedType (Suc 0) demoInjector (Some Background) (TSlice (TOther ''Nothing'')) []
       True demoFresh =
     Ret ((VSlice (TSlice (TOther ''Nothing'')) [], None), demoFresh)"
proof (intro conjI)
  let ?R = "getInstanceOfAnnotatedType 0 demoInjector"
  obtain s' where
    r: "resolvesInOrder ?R demoInjector (Some Background)
          [shapeBinding 10 ''Rectangle'' Singleton, shapeBinding 11 ''Square'' Singleton] demoFresh
          [VObj (TPtr (TOther ''Rectangle'')) 10, VObj (TPtr (TOther ''Square'')) 11] s'"
    and w: "world s' = [10, 11]"
    by (simp add: getScopedInstanceFromBinding_def demo_scopes resolveBinding_def demoFresh_def
          emptyRegistry_def instanceCreator_shape shape_distinct)
  have ne: "[shapeBinding 10 ''Rectangle'' Singleton, shapeBinding 11 ''Square'' Singleton] \<noteq> []"
    by simp
  from slice_resolution [OF demoInjector_find,
      where fuel = 0 and ctx = "Some Background" and s = demoFresh and s' = s' and optional = False
        and rs = "[VObj (TPtr (TOther ''Rectangle'')) 10, VObj (TPtr (TOther ''Square'')) 11]",
      THEN conjunct1, THEN mp, OF conjI [OF ne r]]
  have "getInstanceOfAnnotatedType (Suc 0) demoInjector (Some Background) (TSlice demoShape) []
            False demoFresh =
          Ret ((VSlice (TSlice demoShape)
                  [VObj (TPtr (TOther ''Rectangle'')) 10, VObj (TPtr (TOther ''Square'')) 11], None), s')"
    by (rule conjunct1)
  with w show "\<exists>s'. getInstanceOfAnnotatedType (Suc 0) demoInjector (Some Background) (TSlice demoShape) []
            False demoFresh =
          Ret ((VSlice (TSlice demoShape)
                  [VObj (TPtr (TOther ''Rectangle'')) 10, VObj (TPtr (TOther ''Square'')) 11], None), s') \<and>
          world s' = [10, 11]"
    by blast
next
  let ?R = "getInstanceOfAnnotatedType 0 failingInjector"
  obtain s1 where
    r: "resolvesInOrder ?R failingInjector (Some Background)
          [shapeBinding 10 ''Rectangle'' Singleton] demoFresh
          [VObj (TPtr (TOther ''Rectangle'')) 10] s1"
    and w: "world s1 = [10]"
    by (simp add: getScopedInstanceFromBinding_def demo_scopes resolveBinding_def demoFresh_def
          emptyRegistry_def instanceCreator_shape)
  obtain s' where
    g: "getScopedInstanceFromBinding ?R failingInjector (Some Background) (failingBinding PerLookUp) s1 =
          Ret ((VZero (TPtr (TOther ''Circle'')),
                Some (Errorf ''provider for type %q returned error: %w''
                        [ArgType (TPtr (TOther ''Circle''))] (Some (UserError ''boom'')))), s')"
    and w': "world s' = [10, 12]"
    using w by (simp add: getScopedInstanceFromBinding_def demo_scopes instanceCreator_failing)
  have b: "[shapeBinding 10 ''Rectangle'' Singleton, failingBinding PerLookUp] =
             [shapeBinding 10 ''Rectangle'' Singleton] @ failingBinding PerLookUp # []"
    by simp
  from slice_resolution [OF failingInjector_find,
      where fuel = 0 and ctx = "Some Background" and s = demoFresh and s' = s' and optional = False
        and rs = "[VObj (TPtr (TOther ''Rectangle'')) 10]" and sm = s1 and b = "failingBinding PerLookUp"
        and pre = "[shapeBinding 10 ''Rectangle'' Singleton]" and post = "[]"
        and v = "VZero (TPtr (TOther ''Circle''))"
        and e = "Errorf ''provider for type %q returned error: %w''
                        [ArgType (TPtr (TOther ''Circle''))] (Some (UserError ''boom''))",
      THEN conjunct2, THEN conjunct1, THEN mp, OF conjI [OF b conjI [OF r g]]]
  have "getInstanceOfAnnotatedType (Suc 0) failingInjector (Some Background) (TSlice demoShape) []
            False demoFresh =
          Ret ((Invalid,
                Some (Errorf ''provider for type %q returned error: %w''
                        [ArgType (TPtr (TOther ''Circle''))] (Some (UserError ''boom'')))), s')" .
  with w' show "\<exists>s'. getInstanceOfAnnotatedType (Suc 0) failingInjector (Some Background) (TSlice demoShape) []
            False demoFresh =
          Ret ((Invalid,
                Some (Errorf ''provider for type %q returned error: %w''
                        [ArgType (TPtr (TOther ''Circle''))] (Some (UserError ''boom'')))), s') \<and>
          world s' = [10, 12]"
    by blast
next
  have f: "findBindingsForAnnotatedType demoInjector (TOther ''Nothing'') [] = []"
    by (simp add: findBindingsForAnnotatedType_def demoInjector_def assemble_def addBinding_def
          shapeBinding_def demoShape_def injectorType_def)
  from slice_resolution [OF f, where fuel = 0 and ctx = "Some Background" and s = demoFresh,
      THEN conjunct2, THEN conjunct2, THEN mp, OF refl, THEN conjunct1]
  show "getInstanceOfAnnotatedType (Suc 0) demoInjector (Some Background) (TSlice (TOther ''Nothing'')) []
       True demoFresh =
     Ret ((VSlice (TSlice (TOther ''Nothing'')) [], None), demoFresh)"
    by simp
qed

text \<open>The claim as stated fails: one binding at least matches, and the result is the
  error of the second provider, not a collection.\<close>

theorem slice_failure_counterexample:
  "\<exists>s'. getInstanceOfAnnotatedType (Suc 0) failingInjector (Some Background) (TSlice demoShape) []
          False demoFresh =
        Ret ((Invalid,
              Some (Errorf ''provider for type %q returned error: %w''
                      [ArgType (TPtr (TOther ''Circle''))] (Some (UserError ''boom'')))), s')"
  by (simp add: getInstanceOfAnnotatedTypeBody_def failingInjector_find
        getScopedInstanceFromBinding_def demo_scopes resolveBinding_def demoFresh_def
        emptyRegistry_def instanceCreator_shape instanceCreator_failing)

section \<open>Building the injector\<close>

lemma resolveEach_append:
  "resolveEach resolve injector (xs @ ys) s =
     (case resolveEach resolve injector xs s of
        Ret (e, s') \<Rightarrow>
          (case e of Some er \<Rightarrow> Ret (Some er, s') | None \<Rightarrow> resolveEach resolve injector ys s')
      | Panic \<Rightarrow> Panic
      | Hang \<Rightarrow> Hang)"
  by (induction xs arbitrary: s) (auto split: result.splits option.splits prod.splits)

lemma eagerBindingList_resolveEach:
  "eagerBindingList resolve injector bl s =
     resolveEach resolve injector (filter (\<lambda>b. scope b = Singleton) bl) s"
  by (induction bl arbitrary: s) (auto split: result.splits option.splits prod.splits)

lemma eagerByAnnotation_resolveEach:
  "eagerByAnnotation resolve injector m s =
     resolveEach resolve injector (filter (\<lambda>b. scope b = Singleton) (concat (map snd m))) s"
proof (induction m arbitrary: s)
  case Nil
  show ?case by simp
next
  case (Cons p m)
  obtain a bl where p: "p = (a, bl)" by (cases p)
  show ?case
    by (simp add: p resolveEach_append eagerBindingList_resolveEach Cons.IH
             split: result.splits option.splits prod.splits)
qed

lemma eagerByType_resolveEach:
  "eagerByType resolve injector tab s =
     resolveEach resolve injector (filter (\<lambda>b. scope b = Singleton) (tableBindings tab)) s"
proof (induction tab arbitrary: s)
  case Nil
  show ?case by (simp add: tableBindings_def)
next
  case (Cons p tab)
  obtain t m where p: "p = (t, m)" by (cases p)
  from Cons.IH show ?case
    by (simp add: p tableBindings_def resolveEach_append eagerByAnnotation_resolveEach
             split: result.splits option.splits prod.splits)
qed

lemma eagerlyCreateSingletons_resolveEach:
  "eagerlyCreateSingletons fuel injector s =
     resolveEach (getInstanceOfAnnotatedType fuel injector) injector (singletonBindings injector) s"
  by (simp add: eagerlyCreateSingletons_def eagerByType_resolveEach singletonBindings_def)

lemma resolveEach_memoExt:
  assumes "resolverKeeps P resolve" and "creatorSound P"
  shows "resolveEach resolve injector bs s = Ret (x, s') \<Longrightarrow> memoExt P s s'"
proof (induction bs arbitrary: s)
  case Nil
  then show ?case by (simp add: memoExt_refl)
next
  case (Cons b bs)
  from Cons.prems obtain v e s1 where
    g: "getScopedInstanceFromBinding resolve injector None b s = Ret ((v, e), s1)" and
    k: "s' = s1 \<or> resolveEach resolve injector bs s1 = Ret (x, s')"
    by (auto split: option.splits result.splits prod.splits)
  from getScopedInstanceFromBinding_memoExt [OF assms g] have "memoExt P s s1" .
  with k Cons.IH show ?case by (blast intro: memoExt_trans)
qed


lemma singleton_resolution_memoizes:
  assumes "scopes injector Singleton = Some (SingletonScope r)" and "scope b = Singleton"
      and "getScopedInstanceFromBinding resolve injector ctx b s = Ret ((v, e), s')"
  shows "memoized r b v s'"
  using assms
  by (auto simp: getScopedInstanceFromBinding_def getScopeFromBinding_def
           dest: resolveBinding_memoizes)

lemma singleton_resolution_memoized:
  assumes "scopes injector Singleton = Some (SingletonScope r)" and "scope b = Singleton"
      and "memoized r b v s"
  shows "getScopedInstanceFromBinding resolve injector ctx b s = Ret ((v, None), s)"
  using assms
  by (simp add: getScopedInstanceFromBinding_def getScopeFromBinding_def resolveBinding_memoized)

lemma resolveEach_memoizes:
  assumes sc: "scopes injector Singleton = Some (SingletonScope r)"
      and rk: "resolverKeeps (\<lambda>b v. True) resolve"
  shows "resolveEach resolve injector bs s = Ret (None, s') \<Longrightarrow>
         \<forall>b\<in>set bs. scope b = Singleton \<Longrightarrow> \<forall>b\<in>set bs. \<exists>v. memoized r b v s'"
proof (induction bs arbitrary: s)
  case Nil
  then show ?case by simp
next
  case (Cons b bs)
  from Cons.prems(1) obtain v s1 where
    g: "getScopedInstanceFromBinding resolve injector None b s = Ret ((v, None), s1)" and
    k: "resolveEach resolve injector bs s1 = Ret (None, s')"
    by (auto split: option.splits result.splits prod.splits)
  from Cons.prems(2) have sb: "scope b = Singleton" by simp
  from singleton_resolution_memoizes [OF sc sb g] have "memoized r b v s1" .
  with resolveEach_memoExt [OF rk creatorSound_True k] have "memoized r b v s'"
    unfolding memoExt_def by blast
  with Cons.IH [OF k] Cons.prems(2) show ?case by auto
qed

lemma resolveEach_failure:
  "resolveEach resolve injector bs s = Ret (Some er, s') \<Longrightarrow>
   \<exists>b\<in>set bs. \<exists>sm v cause.
     getScopedInstanceFromBinding resolve injector None b sm = Ret ((v, Some cause), s') \<and>
     er = Errorf ''failed to get singleton instance: %w'' [] (Some cause) \<and>
     Unwrap er = Some cause"
proof (induction bs arbitrary: s)
  case Nil
  then show ?case by simp
next
  case (Cons b bs)
  from Cons.prems obtain v e s1 where
    g: "getScopedInstanceFromBinding resolve injector None b s = Ret ((v, e), s1)" and
    k: "(\<exists>cause. e = Some cause \<and> s' = s1 \<and>
            er = Errorf ''failed to get singleton instance: %w'' [] (Some cause)) \<or>
        resolveEach resolve injector bs s1 = Ret (Some er, s')"
    by (auto split: option.splits result.splits prod.splits)
  from k show ?case
  proof
    assume "\<exists>cause. e = Some cause \<and> s' = s1 \<and>
            er = Errorf ''failed to get singleton instance: %w'' [] (Some cause)"
    with g show ?thesis by auto
  next
    assume "resolveEach resolve injector bs s1 = Ret (Some er, s')"
    from Cons.IH [OF this] show ?thesis by auto
  qed
qed

lemma NewInjector_unfold:
  assumes "applyOptions options \<lparr>modBindings = [], modScopes = Map.empty\<rparr> = Inr cfg"
  shows "NewInjector fuel options s =
     (case resolveEach (getInstanceOfAnnotatedType fuel (builtInjector cfg s)) (builtInjector cfg s)
             (singletonBindings (builtInjector cfg s)) (buildState s) of
        Ret (e, s') \<Rightarrow>
          (case e of
             Some er \<Rightarrow> Ret ((None, Some er), s')
           | None \<Rightarrow> Ret ((Some (builtInjector cfg s), None), s'))
      | Panic \<Rightarrow> Panic
      | Hang \<Rightarrow> Hang)"
  using assms
  by (simp add: NewInjector_def newSingletonScope_def newInstanceRegistry_def Let_def
        builtInjector_def buildState_def
        eagerlyCreateSingletons_resolveEach split: result.splits option.splits prod.splits)

lemma NewInjector_success:
  assumes "NewInjector fuel options s = Ret ((Some injector, None), s')"
  shows "\<exists>cfg. applyOptions options \<lparr>modBindings = [], modScopes = Map.empty\<rparr> = Inr cfg \<and>
           injector = builtInjector cfg s \<and>
           resolveEach (getInstanceOfAnnotatedType fuel injector) injector
             (singletonBindings injector) (buildState s) = Ret (None, s')"
proof (cases "applyOptions options \<lparr>modBindings = [], modScopes = Map.empty\<rparr>")
  case (Inl e)
  with assms show ?thesis by (simp add: NewInjector_def)
next
  case (Inr cfg)
  from assms NewInjector_unfold [OF Inr, of fuel s] show ?thesis
    using Inr by (auto split: result.splits option.splits prod.splits)
qed

lemma builtInjector_scopes:
  "scopes (builtInjector cfg s) Singleton = Some (SingletonScope (nextAddr s))"
  "singletonScope (builtInjector cfg s) = nextAddr s"
  "self (builtInjector cfg s) = Suc (nextAddr s)"
  by (simp_all add: builtInjector_def assemble_def Singleton_def PerLookUp_def)

lemma builtInjector_find:
  "findBindingsForAnnotatedType (builtInjector cfg s) injectorType [] =
     [injectorBinding (Suc (Suc (nextAddr s))) (Suc (nextAddr s))]"
  by (simp add: findBindingsForAnnotatedType_def builtInjector_def assemble_def update_conv')

lemma in_set_update: "(k, v) \<in> set (AList.update k v al)"
  by (induction al) auto

lemma builtInjector_singletonBindings:
  "injectorBinding (Suc (Suc (nextAddr s))) (Suc (nextAddr s)) \<in> set (singletonBindings (builtInjector cfg s))"
proof -
  let ?b = "injectorBinding (Suc (Suc (nextAddr s))) (Suc (nextAddr s)) :: 'a binding"
  have "(injectorType, [([], [?b])]) \<in> set (bindings (builtInjector cfg s))"
    by (simp add: builtInjector_def assemble_def in_set_update)
  then have "?b \<in> set (tableBindings (bindings (builtInjector cfg s)))"
    unfolding tableBindings_def by force
  then show ?thesis by (simp add: singletonBindings_def injectorBinding_def)
qed

lemma injectorBinding_creatorSound:
  "creatorSound (\<lambda>b v. b = injectorBinding a' a \<longrightarrow> v = VInjector a)"
  by (auto simp: creatorSound_def instanceCreator_def create_def
        callFunctionWithArgumentInstance_def Call_def injectorBinding_def)

lemma buildState_fresh: "\<not> memoized (nextAddr s) b v (buildState s)"
  by (simp add: memoized_def buildState_def emptyRegistry_def)

lemma EmbedsParams_injectorType: "\<not> EmbedsParams injectorType"
  by (simp add: EmbedsParams_def injectorType_def paramType_def)

lemma getInstanceOfAnnotatedType_single:
  "findBindingsForAnnotatedType injector t a = [b] \<Longrightarrow> Kind t \<noteq> Slice \<Longrightarrow>
   getInstanceOfAnnotatedType (Suc n) injector ctx t a opt s =
     getScopedInstanceFromBinding (getInstanceOfAnnotatedType n injector) injector ctx b s"
  by (cases t) (simp_all add: getInstanceOfAnnotatedTypeBody_def)

lemma Kind_injectorType: "Kind injectorType \<noteq> Slice"
  by (simp add: injectorType_def)

lemma demoOptions_apply:
  "applyOptions demoOptions \<lparr>modBindings = [], modScopes = Map.empty\<rparr> = Inr demoConfiguration"
  "applyOptions failingOptions \<lparr>modBindings = [], modScopes = Map.empty\<rparr> = Inr failingConfiguration"
  by (simp_all add: demoOptions_def failingOptions_def provide_def demoConfiguration_def
        failingConfiguration_def)

lemma demoInjector_built: "demoInjector = builtInjector demoConfiguration demoInitial"
  by (simp add: demoInjector_def builtInjector_def demoConfiguration_def demoInitial_def
        numeral_2_eq_2)

lemma demoInjector_bindings:
  "bindings demoInjector =
     [(demoShape, [([], [shapeBinding 10 ''Rectangle'' Singleton, shapeBinding 11 ''Square'' Singleton])]),
      (injectorType, [([], [injectorBinding 2 1])])]"
  by (simp add: demoInjector_def assemble_def addBinding_def shapeBinding_def demoShape_def
        injectorType_def)

lemma demo_buildState: "buildState demoInitial = demoFresh"
  by (simp add: buildState_def demoInitial_def demoFresh_def numeral_3_eq_3)

lemma failing_bindings:
  "bindings failingBuilt =
     [(demoShape, [([], [failingBinding Singleton])]),
      (injectorType, [([], [injectorBinding 2 1])])]"
  by (simp add: failingBuilt_def builtInjector_def failingConfiguration_def demoInitial_def
        assemble_def addBinding_def failingBinding_def demoShape_def injectorType_def
        numeral_2_eq_2)

lemma demo_scope_singleton:
  "scope b = Singleton \<Longrightarrow> getScopeFromBinding demoInjector b = Inr (SingletonScope 0)"
  "scope b = Singleton \<Longrightarrow> getScopeFromBinding failingBuilt b = Inr (SingletonScope 0)"
  by (simp_all add: getScopeFromBinding_def demoInjector_def failingBuilt_def builtInjector_def
        demoInitial_def assemble_def Singleton_def PerLookUp_def)

lemma demo_scope_values:
  "scope (shapeBinding n name sc) = sc"
  "scope (failingBinding sc) = sc"
  "scope (injectorBinding a' a) = Singleton"
  by (simp_all add: shapeBinding_def failingBinding_def injectorBinding_def)

lemma instanceCreator_injector:
  "instanceCreator resolve sc ctx (injectorBinding a' a) s = Ret ((VInjector a, None), s)"
  by (simp add: instanceCreator_def create_def callFunctionWithArgumentInstance_def Call_def
        injectorBinding_def)

lemma shape_injector_distinct:
  "(shapeBinding n name sc = injectorBinding a' a) = False"
  "(injectorBinding a' a = shapeBinding n name sc) = False"
  by (simp_all add: shapeBinding_def injectorBinding_def demoShape_def injectorType_def)

lemma demo_NewInjector:
  "\<exists>s'. NewInjector 0 demoOptions demoInitial = Ret ((Some demoInjector, None), s') \<and>
        world s' = [10, 11] \<and>
        memoized 0 (shapeBinding 10 ''Rectangle'' Singleton) (VObj (TPtr (TOther ''Rectangle'')) 10) s'"
  by (simp add: NewInjector_unfold [OF demoOptions_apply(1)] demoInjector_built [symmetric]
        singletonBindings_def tableBindings_def demoInjector_bindings demo_scope_values
        getScopedInstanceFromBinding_def demo_scope_singleton resolveBinding_def demo_buildState
        demoFresh_def emptyRegistry_def instanceCreator_shape instanceCreator_injector
        shape_distinct shape_injector_distinct memoized_def)

lemma failing_NewInjector:
  "\<exists>s'. NewInjector 0 failingOptions demoInitial =
          Ret ((None, Some (Errorf ''failed to get singleton instance: %w'' []
                  (Some (Errorf ''provider for type %q returned error: %w''
                          [ArgType (TPtr (TOther ''Circle''))] (Some (UserError ''boom'')))))), s') \<and>
        world s' = [12]"
  by (simp add: NewInjector_unfold [OF demoOptions_apply(2)] failingBuilt_def [symmetric]
        singletonBindings_def tableBindings_def failing_bindings demo_scope_values
        getScopedInstanceFromBinding_def demo_scope_singleton resolveBinding_def demo_buildState
        demoFresh_def emptyRegistry_def instanceCreator_failing)

lemma memoized_fun: "memoized r b v s \<Longrightarrow> memoized r b v' s \<Longrightarrow> v = v'"
  by (auto simp: memoized_def split: option.splits)

text \<open>
  Claim C9. When the options apply without error, \<^verbatim>\<open>NewInjector\<close> resolves each binding of
  the table whose scope is the singleton scope once, in the order of the table, with a nil
  context, and stops at the first failure. If a resolution fails with an error \<open>cause\<close>,
  \<^verbatim>\<open>NewInjector\<close> returns no injector and the error "failed to get singleton instance"
  wrapping \<open>cause\<close>. If it returns an injector, every singleton binding of the table has its
  value stored in the singleton registry, and in every later state a resolution of that
  binding, with any context, returns that value and leaves the state unchanged: no
  provider runs again. Later states are those in which the finished constructions are
  still there, as they are after every operation of the package.
\<close>

theorem NewInjector_eager_singletons:
  assumes opts: "applyOptions options \<lparr>modBindings = [], modScopes = Map.empty\<rparr> = Inr cfg"
      and inj: "injector = builtInjector cfg s"
  shows
    "NewInjector fuel options s =
       (case resolveEach (getInstanceOfAnnotatedType fuel injector) injector
               (singletonBindings injector) (buildState s) of
          Ret (e, sa) \<Rightarrow>
            (case e of
               Some er \<Rightarrow> Ret ((None, Some er), sa)
             | None \<Rightarrow> Ret ((Some injector, None), sa))
        | Panic \<Rightarrow> Panic
        | Hang \<Rightarrow> Hang) \<and>
     (NewInjector fuel options s = Ret ((res, Some er), s') \<longrightarrow>
        res = None \<and>
        (\<exists>b\<in>set (singletonBindings injector). \<exists>sm v cause.
           getScopedInstanceFromBinding (getInstanceOfAnnotatedType fuel injector) injector None b sm =
             Ret ((v, Some cause), s') \<and>
           er = Errorf ''failed to get singleton instance: %w'' [] (Some cause) \<and>
           Unwrap er = Some cause)) \<and>
     (NewInjector fuel options s = Ret ((Some injector', None), s') \<longrightarrow>
        injector' = injector \<and>
        (\<forall>b\<in>set (singletonBindings injector). \<exists>v.
           memoized (singletonScope injector) b v s' \<and>
           (\<forall>s'' resolve ctx. memoLe s' s'' \<longrightarrow>
              getScopedInstanceFromBinding resolve injector ctx b s'' = Ret ((v, None), s''))))"
proof (intro conjI impI)
  show "NewInjector fuel options s =
       (case resolveEach (getInstanceOfAnnotatedType fuel injector) injector
               (singletonBindings injector) (buildState s) of
          Ret (e, sa) \<Rightarrow>
            (case e of
               Some er \<Rightarrow> Ret ((None, Some er), sa)
             | None \<Rightarrow> Ret ((Some injector, None), sa))
        | Panic \<Rightarrow> Panic
        | Hang \<Rightarrow> Hang)"
    unfolding inj by (rule NewInjector_unfold [OF opts])
next
  assume a: "NewInjector fuel options s = Ret ((res, Some er), s')"
  with NewInjector_unfold [OF opts, of fuel s] inj show "res = None"
    by (auto split: result.splits option.splits prod.splits)
  from a NewInjector_unfold [OF opts, of fuel s] inj
  have "resolveEach (getInstanceOfAnnotatedType fuel injector) injector
          (singletonBindings injector) (buildState s) = Ret (Some er, s')"
    by (auto split: result.splits option.splits prod.splits)
  then show "\<exists>b\<in>set (singletonBindings injector). \<exists>sm v cause.
           getScopedInstanceFromBinding (getInstanceOfAnnotatedType fuel injector) injector None b sm =
             Ret ((v, Some cause), s') \<and>
           er = Errorf ''failed to get singleton instance: %w'' [] (Some cause) \<and>
           Unwrap er = Some cause"
    by (rule resolveEach_failure)
next
  assume a: "NewInjector fuel options s = Ret ((Some injector', None), s')"
  with NewInjector_unfold [OF opts, of fuel s] inj show "injector' = injector"
    by (auto split: result.splits option.splits prod.splits)
  from a NewInjector_unfold [OF opts, of fuel s] inj
  have r: "resolveEach (getInstanceOfAnnotatedType fuel injector) injector
          (singletonBindings injector) (buildState s) = Ret (None, s')"
    by (auto split: result.splits option.splits prod.splits)
  have sc: "scopes injector Singleton = Some (SingletonScope (singletonScope injector))"
    by (simp add: inj builtInjector_scopes)
  have sb: "\<forall>b\<in>set (singletonBindings injector). scope b = Singleton"
    by (simp add: singletonBindings_def)
  from resolveEach_memoizes [OF sc getInstanceOfAnnotatedType_keeps [OF creatorSound_True] r sb]
  have m: "\<forall>b\<in>set (singletonBindings injector). \<exists>v. memoized (singletonScope injector) b v s'" .
  show "\<forall>b\<in>set (singletonBindings injector). \<exists>v.
           memoized (singletonScope injector) b v s' \<and>
           (\<forall>s'' resolve ctx. memoLe s' s'' \<longrightarrow>
              getScopedInstanceFromBinding resolve injector ctx b s'' = Ret ((v, None), s''))"
  proof
    fix b
    assume b: "b \<in> set (singletonBindings injector)"
    with m obtain v where v: "memoized (singletonScope injector) b v s'" by blast
    from b sb have sbb: "scope b = Singleton" by blast
    have "getScopedInstanceFromBinding resolve injector ctx b s'' = Ret ((v, None), s'')"
      if "memoLe s' s''" for s'' resolve ctx
    proof -
      from that v have "memoized (singletonScope injector) b v s''" by (simp add: memoLe_def)
      from singleton_resolution_memoized [OF sc sbb this] show ?thesis .
    qed
    with v show "\<exists>v. memoized (singletonScope injector) b v s' \<and>
           (\<forall>s'' resolve ctx. memoLe s' s'' \<longrightarrow>
              getScopedInstanceFromBinding resolve injector ctx b s'' = Ret ((v, None), s''))"
      by blast
  qed
qed

theorem NewInjector_eager_singletons_witness:
  "(\<exists>s'. NewInjector 0 demoOptions demoInitial = Ret ((Some demoInjector, None), s') \<and>
         world s' = [10, 11] \<and>
         getScopedInstanceFromBinding (getInstanceOfAnnotatedType 0 demoInjector) demoInjector
             (Some Background) (shapeBinding 10 ''Rectangle'' Singleton) s' =
           Ret ((VObj (TPtr (TOther ''Rectangle'')) 10, None), s')) \<and>
   (\<exists>s' cause. NewInjector 0 failingOptions demoInitial =
         Ret ((None, Some (Errorf ''failed to get singleton instance: %w'' [] (Some cause))), s'))"
proof
  let ?b = "shapeBinding 10 ''Rectangle'' Singleton"
  from demo_NewInjector obtain s' where
    n: "NewInjector 0 demoOptions demoInitial = Ret ((Some demoInjector, None), s')" and
    w: "world s' = [10, 11]" and
    m: "memoized 0 ?b (VObj (TPtr (TOther ''Rectangle'')) 10) s'"
    by blast
  have mem: "?b \<in> set (singletonBindings demoInjector)"
    by (simp add: singletonBindings_def tableBindings_def demoInjector_bindings demo_scope_values)
  from NewInjector_eager_singletons [OF demoOptions_apply(1) demoInjector_built,
      where fuel = 0 and injector' = demoInjector and s' = s',
      THEN conjunct2, THEN conjunct2, THEN mp, OF n, THEN conjunct2, THEN bspec, OF mem]
  obtain v where
    v: "memoized (singletonScope demoInjector) ?b v s'" and
    r: "\<forall>s'' resolve ctx. memoLe s' s'' \<longrightarrow>
          getScopedInstanceFromBinding resolve demoInjector ctx ?b s'' = Ret ((v, None), s'')"
    by blast
  have "singletonScope demoInjector = 0" by (simp add: demoInjector_def assemble_def)
  with v m have "v = VObj (TPtr (TOther ''Rectangle'')) 10" by (auto dest: memoized_fun)
  with r memoLe_refl [of s'] have
    "getScopedInstanceFromBinding (getInstanceOfAnnotatedType 0 demoInjector) demoInjector
       (Some Background) ?b s' = Ret ((VObj (TPtr (TOther ''Rectangle'')) 10, None), s')"
    by blast
  with n w show "\<exists>s'. NewInjector 0 demoOptions demoInitial = Ret ((Some demoInjector, None), s') \<and>
         world s' = [10, 11] \<and>
         getScopedInstanceFromBinding (getInstanceOfAnnotatedType 0 demoInjector) demoInjector
             (Some Background) ?b s' =
           Ret ((VObj (TPtr (TOther ''Rectangle'')) 10, None), s')"
    by blast
next
  from failing_NewInjector obtain s' where
    n: "NewInjector 0 failingOptions demoInitial =
          Ret ((None, Some (Errorf ''failed to get singleton instance: %w'' []
                  (Some (Errorf ''provider for type %q returned error: %w''
                          [ArgType (TPtr (TOther ''Circle''))] (Some (UserError ''boom'')))))), s')"
    by blast
  from NewInjector_eager_singletons [OF demoOptions_apply(2) failingBuilt_def,
      where fuel = 0 and s' = s',
      THEN conjunct2, THEN conjunct1, THEN mp, OF n]
  obtain cause where
    "Errorf ''failed to get singleton instance: %w'' []
        (Some (Errorf ''provider for type %q returned error: %w''
                 [ArgType (TPtr (TOther ''Circle''))] (Some (UserError ''boom'')))) =
     Errorf ''failed to get singleton instance: %w'' [] (Some cause)"
    by blast
  with n show "\<exists>s' cause. NewInjector 0 failingOptions demoInitial =
         Ret ((None, Some (Errorf ''failed to get singleton instance: %w'' [] (Some cause))), s')"
    by auto
qed

text \<open>
  Claim C10. An injector returned by \<^verbatim>\<open>NewInjector\<close> has, for the type \<^verbatim>\<open>*Injector\<close> and
  the empty annotation, exactly one binding, its own, in the singleton scope; the value
  stored for it in the singleton registry is the injector itself. In every later state,
  resolving the type \<^verbatim>\<open>*Injector\<close>, as a request and as the parameter of a function,
  returns the injector itself and no error, and a function whose one parameter has that
  type is called with the injector.
\<close>

theorem injector_provided:
  assumes "NewInjector fuel options s = Ret ((Some injector, None), s')"
      and ib: "ib = injectorBinding (Suc (Suc (nextAddr s))) (self injector)"
  shows
    "findBindingsForAnnotatedType injector injectorType [] = [ib] \<and>
     scope ib = Singleton \<and>
     getScopeFromBinding injector ib = Inr (SingletonScope (singletonScope injector)) \<and>
     memoized (singletonScope injector) ib (VInjector (self injector)) s' \<and>
     (\<forall>s'' n ctx. memoLe s' s'' \<longrightarrow>
        getInstanceOfAnnotatedType (Suc n) injector ctx injectorType [] False s'' =
          Ret ((VInjector (self injector), None), s'') \<and>
        getFunctionArgumentInstance (getInstanceOfAnnotatedType (Suc n) injector) ctx injectorType s'' =
          Ret ((VInjector (self injector), None), s'') \<and>
        (\<forall>f. funcIn f = [injectorType] \<longrightarrow>
           callFunctionWithArgumentInstance (getInstanceOfAnnotatedType (Suc n) injector) ctx f s'' =
             (case funcBody f [VInjector (self injector)] (world s'') of
                (res, w) \<Rightarrow> Ret ((res, None), s''\<lparr>world := w\<rparr>))))"
proof -
  from NewInjector_success [OF assms(1)] obtain cfg where
    inj: "injector = builtInjector cfg s" and
    r: "resolveEach (getInstanceOfAnnotatedType fuel injector) injector
          (singletonBindings injector) (buildState s) = Ret (None, s')"
    by blast
  have ib': "ib = injectorBinding (Suc (Suc (nextAddr s))) (Suc (nextAddr s))"
    by (simp add: ib inj builtInjector_scopes)
  have f: "findBindingsForAnnotatedType injector injectorType [] = [ib]"
    by (simp add: inj ib' builtInjector_find)
  have sb: "scope ib = Singleton" by (simp add: ib injectorBinding_def)
  have sc: "scopes injector Singleton = Some (SingletonScope (singletonScope injector))"
    by (simp add: inj builtInjector_scopes)
  have gs: "getScopeFromBinding injector ib = Inr (SingletonScope (singletonScope injector))"
    by (simp add: getScopeFromBinding_def sb sc)
  have mem: "ib \<in> set (singletonBindings injector)"
    by (simp add: inj ib' builtInjector_singletonBindings)
  have all: "\<forall>b\<in>set (singletonBindings injector). scope b = Singleton"
    by (simp add: singletonBindings_def)
  from resolveEach_memoizes [OF sc getInstanceOfAnnotatedType_keeps [OF creatorSound_True] r all] mem
  obtain v where v: "memoized (singletonScope injector) ib v s'" by blast
  let ?P = "\<lambda>b v. b = ib \<longrightarrow> v = VInjector (self injector)"
  have snd: "creatorSound ?P"
    unfolding ib by (rule injectorBinding_creatorSound)
  from resolveEach_memoExt [OF getInstanceOfAnnotatedType_keeps [OF snd] snd r] v
  have "memoized (singletonScope injector) ib v (buildState s) \<or> v = VInjector (self injector)"
    unfolding memoExt_def by blast
  moreover have "\<not> memoized (singletonScope injector) ib v (buildState s)"
    by (simp add: inj builtInjector_scopes buildState_fresh)
  ultimately have m: "memoized (singletonScope injector) ib (VInjector (self injector)) s'"
    using v by simp
  have later: "getInstanceOfAnnotatedType (Suc n) injector ctx injectorType [] False s'' =
          Ret ((VInjector (self injector), None), s'') \<and>
        getFunctionArgumentInstance (getInstanceOfAnnotatedType (Suc n) injector) ctx injectorType s'' =
          Ret ((VInjector (self injector), None), s'') \<and>
        (\<forall>f. funcIn f = [injectorType] \<longrightarrow>
           callFunctionWithArgumentInstance (getInstanceOfAnnotatedType (Suc n) injector) ctx f s'' =
             (case funcBody f [VInjector (self injector)] (world s'') of
                (res, w) \<Rightarrow> Ret ((res, None), s''\<lparr>world := w\<rparr>)))"
    if le: "memoLe s' s''" for s'' n ctx
  proof -
    from le m have m': "memoized (singletonScope injector) ib (VInjector (self injector)) s''"
      by (simp add: memoLe_def)
    have g: "getInstanceOfAnnotatedType (Suc n) injector ctx injectorType [] False s'' =
          Ret ((VInjector (self injector), None), s'')"
      by (simp only: getInstanceOfAnnotatedType_single [OF f Kind_injectorType]
            singleton_resolution_memoized [OF sc sb m'])
    then have a: "getFunctionArgumentInstance (getInstanceOfAnnotatedType (Suc n) injector) ctx
                    injectorType s'' = Ret ((VInjector (self injector), None), s'')"
      by (simp only: getFunctionArgumentInstance_def EmbedsParams_injectorType if_False)
    have "callFunctionWithArgumentInstance (getInstanceOfAnnotatedType (Suc n) injector) ctx f s'' =
             (case funcBody f [VInjector (self injector)] (world s'') of
                (res, w) \<Rightarrow> Ret ((res, None), s''\<lparr>world := w\<rparr>))"
      if "funcIn f = [injectorType]" for f
      using that a
      by (simp add: callFunctionWithArgumentInstance_def Call_def split: prod.splits)
    with g a show ?thesis by blast
  qed
  from f sb gs m later show ?thesis by blast
qed

theorem injector_provided_witness:
  "\<exists>s'. NewInjector 0 demoOptions demoInitial = Ret ((Some demoInjector, None), s') \<and>
        findBindingsForAnnotatedType demoInjector injectorType [] = [injectorBinding 2 1] \<and>
        getFunctionArgumentInstance (getInstanceOfAnnotatedType (Suc 0) demoInjector)
            (Some Background) injectorType s' =
          Ret ((VInjector 1, None), s')"
proof -
  from demo_NewInjector obtain s' where
    n: "NewInjector 0 demoOptions demoInitial = Ret ((Some demoInjector, None), s')"
    by blast
  have ib: "injectorBinding 2 1 = injectorBinding (Suc (Suc (nextAddr demoInitial))) (self demoInjector)"
    by (simp add: demoInitial_def demoInjector_def assemble_def numeral_2_eq_2)
  have sf: "self demoInjector = 1" by (simp add: demoInjector_def assemble_def)
  note t = injector_provided [OF n ib]
  from t have f: "findBindingsForAnnotatedType demoInjector injectorType [] = [injectorBinding 2 1]"
    by (rule conjunct1)
  from t have
    "\<forall>s'' n ctx. memoLe s' s'' \<longrightarrow>
        getInstanceOfAnnotatedType (Suc n) demoInjector ctx injectorType [] False s'' =
          Ret ((VInjector (self demoInjector), None), s'') \<and>
        getFunctionArgumentInstance (getInstanceOfAnnotatedType (Suc n) demoInjector) ctx injectorType s'' =
          Ret ((VInjector (self demoInjector), None), s'')"
    by blast
  from this [rule_format, OF memoLe_refl, of 0 "Some Background", THEN conjunct2]
  have "getFunctionArgumentInstance (getInstanceOfAnnotatedType (Suc 0) demoInjector)
            (Some Background) injectorType s' =
          Ret ((VInjector 1, None), s')"
    by (simp only: sf)
  with f have "findBindingsForAnnotatedType demoInjector injectorType [] = [injectorBinding 2 1] \<and>
        getFunctionArgumentInstance (getInstanceOfAnnotatedType (Suc 0) demoInjector)
            (Some Background) injectorType s' =
          Ret ((VInjector 1, None), s')"
    by (rule conjI)
  with n show ?thesis by blast
qed
section \<open>A failed construction, seen from the injector\<close>

lemma requestState_entered:
  "WithContextualScopeEnabled (Some Background) (AnyOther 1) demoFresh = Ret (requestContext, requestState)"
  by (simp add: WithContextualScopeEnabled_def newInstanceRegistry_def demoFresh_def
        requestContext_def requestState_def numeral_3_eq_3 eval_nat_numeral)

lemma request_find:
  "findBindingsForAnnotatedType requestInjector requestType [] = [requestBinding]"
  "findBindingsForAnnotatedType requestInjector (TPtr (TOther ''Missing'')) [] = []"
  by (simp_all add: findBindingsForAnnotatedType_def requestInjector_def assemble_def
        addBinding_def requestBinding_def requestType_def injectorType_def)

lemma request_scope:
  "getScopeFromBinding requestInjector requestBinding = Inr (ContextualScope (AnyOther 1))"
  by (simp add: getScopeFromBinding_def requestInjector_def assemble_def requestBinding_def
        Singleton_def PerLookUp_def)

lemma request_missing:
  "getInstanceOfAnnotatedType (Suc n) requestInjector ctx (TPtr (TOther ''Missing'')) [] False s =
     Ret ((Invalid, Some (injectionError (TPtr (TOther ''Missing'')) []
                            (Errorf ''did not found binding, expected one'' [] None))), s)"
  by (simp add: getInstanceOfAnnotatedTypeBody_def request_find isProviderType_def
        invocationContextReflectType_def newInjectionError_def)

lemma request_creator:
  "instanceCreator (getInstanceOfAnnotatedType (Suc n) requestInjector) sc ctx requestBinding s =
     Ret ((Invalid,
           Some (Errorf ''failed to call provider function for type %q: %w'' [ArgType requestType]
             (Some (Errorf ''failed to resolve function argument #%d: %w'' [ArgNat 0]
               (Some (injectionError (TPtr (TOther ''Missing'')) []
                        (Errorf ''did not found binding, expected one'' [] None))))))), s)"
proof -
  have "getFunctionArgumentInstance (getInstanceOfAnnotatedType (Suc n) requestInjector) ctx
          (TPtr (TOther ''Missing'')) s =
        Ret ((Invalid, Some (injectionError (TPtr (TOther ''Missing'')) []
                            (Errorf ''did not found binding, expected one'' [] None))), s)"
    by (simp only: getFunctionArgumentInstance_def request_missing)
       (simp add: EmbedsParams_def)
  then show ?thesis
    by (simp add: instanceCreator_def create_def callFunctionWithArgumentInstance_def
          requestBinding_def)
qed

text \<open>
  What claim C2 is about, through the functions of the injector. The provider of the
  binding cannot be called, since one of its arguments has no binding: the first call of
  a function that takes a \<open>Request\<close> returns that error. The registry has stored the zero
  Value for the binding. A second resolution of the type returns the zero Value and a nil
  error, and the second call of the function panics in \<^verbatim>\<open>reflect.Value.Call\<close>, which is
  given the zero Value as argument.
\<close>

theorem failed_construction_then_panic:
  "\<exists>e s1. callFunctionWithArgumentInstance (getInstanceOfAnnotatedType (Suc (Suc 0)) requestInjector)
             (Some requestContext) requestConsumer requestState = Ret (([], Some e), s1) \<and>
          world s1 = [] \<and>
          getInstanceOfAnnotatedType (Suc (Suc 0)) requestInjector (Some requestContext) requestType []
             False s1 = Ret ((Invalid, None), s1) \<and>
          callFunctionWithArgumentInstance (getInstanceOfAnnotatedType (Suc (Suc 0)) requestInjector)
             (Some requestContext) requestConsumer s1 = Panic"
proof -
  let ?R = "getInstanceOfAnnotatedType (Suc (Suc 0)) requestInjector"
  have k: "Kind requestType \<noteq> Slice" by (simp add: requestType_def)
  have ne: "\<not> EmbedsParams requestType" by (simp add: EmbedsParams_def requestType_def)
  obtain e s1 where
    f: "?R (Some requestContext) requestType [] False requestState = Ret ((Invalid, Some e), s1)" and
    w: "world s1 = []" and
    h: "heap s1 3 = Some \<lparr>instanceLock = [requestBinding \<mapsto> False],
                            instances = [requestBinding \<mapsto> Invalid], destroyMethods = []\<rparr>"
    by (simp only: getInstanceOfAnnotatedType_single [OF request_find(1) k])
       (simp add: getScopedInstanceFromBinding_def request_scope requestContext_def
          resolveBinding_def requestState_def emptyRegistry_def request_creator
          del: getInstanceOfAnnotatedType.simps)
  have s: "?R (Some requestContext) requestType [] False s1 = Ret ((Invalid, None), s1)"
    using h
    by (simp only: getInstanceOfAnnotatedType_single [OF request_find(1) k])
       (simp add: getScopedInstanceFromBinding_def request_scope requestContext_def
          resolveBinding_def del: getInstanceOfAnnotatedType.simps)
  have c1: "callFunctionWithArgumentInstance ?R (Some requestContext) requestConsumer requestState =
          Ret (([], Some (Errorf ''failed to resolve function argument #%d: %w'' [ArgNat 0] (Some e))), s1)"
    using ne
    by (simp only: callFunctionWithArgumentInstance_def requestConsumer_def gofunc.simps
          argumentLoop.simps getFunctionArgumentInstance_def if_False f)
       simp
  have c2: "callFunctionWithArgumentInstance ?R (Some requestContext) requestConsumer s1 = Panic"
    using ne
    by (simp only: callFunctionWithArgumentInstance_def requestConsumer_def gofunc.simps
          argumentLoop.simps getFunctionArgumentInstance_def if_False s)
       (simp add: Call_def)
  from c1 w s c2 show ?thesis by blast
qed

end
